theory Spec2Isabelle
  imports Main "HOL-Library.Word" "HOL-Library.AList"
begin

unbundle bit_operations_syntax

section \<open>The icon theme engine of gtkicontheme.c\<close>

text \<open>
  A shallow embedding of the lookup and caching core of
  \<^verbatim>\<open>src/3party/gtk+-3.12.1/gtk/gtkicontheme.c\<close>.

  Conventions of the embedding.
  \<^item> A C \<^verbatim>\<open>int\<close> (\<^verbatim>\<open>gint\<close>) is an \<^typ>\<open>int\<close>: the program's arithmetic on sizes and
    scales agrees with it as long as no product leaves the range of \<^verbatim>\<open>int\<close> (signed
    overflow is undefined in C, so there is no wrap-around to write out).
  \<^item> A NULL-terminated \<^verbatim>\<open>char **\<close> is a \<^typ>\<open>string list\<close>; a \<^verbatim>\<open>char *\<close> that may be
    NULL is a \<^typ>\<open>string option\<close>; a \<^verbatim>\<open>GList\<close> is a list.
  \<^item> A \<^verbatim>\<open>GHashTable\<close> keyed by strings is an association list read with \<^const>\<open>map_of\<close>.
  \<^item> \<^verbatim>\<open>g_assert\<close> and \<^verbatim>\<open>g_assert_not_reached\<close> abort the process: they are the value
    \<open>Inl AssertionFailed\<close> of a sum type.
  \<^item> A bit mask (\<^verbatim>\<open>IconSuffix\<close>, \<^verbatim>\<open>GtkIconLookupFlags\<close>) is a 32-bit word.
\<close>

subsection \<open>Types\<close>

datatype error = AssertionFailed | NullDereference

datatype IconThemeDirType =
    ICON_THEME_DIR_FIXED
  | ICON_THEME_DIR_SCALABLE
  | ICON_THEME_DIR_THRESHOLD
  | ICON_THEME_DIR_UNTHEMED

type_synonym IconSuffix = "32 word"

definition ICON_SUFFIX_NONE :: IconSuffix where
  "ICON_SUFFIX_NONE = 0"

definition ICON_SUFFIX_XPM :: IconSuffix where
  "ICON_SUFFIX_XPM = 1"

definition ICON_SUFFIX_SVG :: IconSuffix where
  "ICON_SUFFIX_SVG = 2"

definition ICON_SUFFIX_PNG :: IconSuffix where
  "ICON_SUFFIX_PNG = 4"

definition HAS_ICON_FILE :: IconSuffix where
  "HAS_ICON_FILE = 8"

definition G_MAXINT :: int where
  "G_MAXINT = 2147483647"

text \<open>
  \<^verbatim>\<open>IconThemeDir\<close>. The fields \<^verbatim>\<open>type, size, min_size, max_size, threshold, scale, dir,
  subdir, cache, icons\<close> carry the prefix \<open>d\<close>. \<open>dcache\<close> is the directory's view of the
  external icon cache (\<^verbatim>\<open>_gtk_icon_cache_get_icon_flags (dir->cache, name,
  dir->subdir_index)\<close> as a table from icon names to flag words) when \<^verbatim>\<open>dir->cache\<close> is
  not NULL; \<open>dicons\<close> is the hash table \<^verbatim>\<open>dir->icons\<close> filled by \<^verbatim>\<open>scan_directory\<close>.
\<close>

record IconThemeDir =
  dtype :: IconThemeDirType
  dsize :: int
  dmin_size :: int
  dmax_size :: int
  dthreshold :: int
  dscale :: int
  ddir :: "string option"
  dsubdir :: string
  dcache :: "(string \<times> 32 word) list option"
  dicons :: "(string \<times> IconSuffix) list"

subsection \<open>DirectoryMatcher\<close>

text \<open>\<^verbatim>\<open>theme_dir_size_difference\<close> (lines 2614-2652).\<close>

definition theme_dir_size_difference :: "IconThemeDir \<Rightarrow> int \<Rightarrow> int \<Rightarrow> error + int" where
  "theme_dir_size_difference dir sz scale =
     (let scaled_size = sz * scale;
          scaled_dir_size = dsize dir * dscale dir
      in case dtype dir of
           ICON_THEME_DIR_FIXED \<Rightarrow> Inr \<bar>scaled_size - scaled_dir_size\<bar>
         | ICON_THEME_DIR_SCALABLE \<Rightarrow>
             if scaled_size < dmin_size dir * dscale dir
             then Inr (dmin_size dir * dscale dir - scaled_size)
             else if sz > dmax_size dir * dscale dir
             then Inr (scaled_size - dmax_size dir * dscale dir)
             else Inr 0
         | ICON_THEME_DIR_THRESHOLD \<Rightarrow>
             (let lo = (dsize dir - dthreshold dir) * dscale dir;
                  hi = (dsize dir + dthreshold dir) * dscale dir
              in if scaled_size < lo then Inr (lo - scaled_size)
                 else if scaled_size > hi then Inr (scaled_size - hi)
                 else Inr 0)
         | ICON_THEME_DIR_UNTHEMED \<Rightarrow> Inl AssertionFailed)"

text \<open>\<^verbatim>\<open>string_from_suffix\<close> (lines 2654-2669).\<close>

definition string_from_suffix :: "IconSuffix \<Rightarrow> error + string" where
  "string_from_suffix suffix =
     (if suffix = ICON_SUFFIX_XPM then Inr ''.xpm''
      else if suffix = ICON_SUFFIX_SVG then Inr ''.svg''
      else if suffix = ICON_SUFFIX_PNG then Inr ''.png''
      else Inl AssertionFailed)"

text \<open>\<^verbatim>\<open>g_str_has_suffix\<close> of GLib and \<^verbatim>\<open>suffix_from_name\<close> (lines 2671-2686).\<close>

definition g_str_has_suffix :: "string \<Rightarrow> string \<Rightarrow> bool" where
  "g_str_has_suffix str suffix =
     (length suffix \<le> length str \<and> drop (length str - length suffix) str = suffix)"

definition suffix_from_name :: "string \<Rightarrow> IconSuffix" where
  "suffix_from_name name =
     (if g_str_has_suffix name ''.png'' then ICON_SUFFIX_PNG
      else if g_str_has_suffix name ''.svg'' then ICON_SUFFIX_SVG
      else if g_str_has_suffix name ''.xpm'' then ICON_SUFFIX_XPM
      else ICON_SUFFIX_NONE)"

text \<open>\<^verbatim>\<open>best_suffix\<close> (lines 2688-2700).\<close>

definition best_suffix :: "IconSuffix \<Rightarrow> bool \<Rightarrow> IconSuffix" where
  "best_suffix suffix allow_svg =
     (if suffix AND ICON_SUFFIX_PNG \<noteq> 0 then ICON_SUFFIX_PNG
      else if allow_svg \<and> suffix AND ICON_SUFFIX_SVG \<noteq> 0 then ICON_SUFFIX_SVG
      else if suffix AND ICON_SUFFIX_XPM \<noteq> 0 then ICON_SUFFIX_XPM
      else ICON_SUFFIX_NONE)"

text \<open>
  \<^verbatim>\<open>theme_dir_get_icon_suffix\<close> (lines 2703-2728): the returned suffix, and the value left
  in the out parameter \<^verbatim>\<open>has_icon_file\<close> (which the caller initialises to FALSE and which
  is written only on the cache path).
\<close>

definition table_lookup :: "(string \<times> 32 word) list \<Rightarrow> string \<Rightarrow> 32 word" where
  "table_lookup tab name = (case map_of tab name of None \<Rightarrow> 0 | Some v \<Rightarrow> v)"

definition theme_dir_get_icon_suffix :: "IconThemeDir \<Rightarrow> string \<Rightarrow> IconSuffix" where
  "theme_dir_get_icon_suffix dir icon_name =
     (case dcache dir of
        Some cache \<Rightarrow> table_lookup cache icon_name AND NOT HAS_ICON_FILE
      | None \<Rightarrow> table_lookup (dicons dir) icon_name)"

definition theme_dir_has_icon_file :: "IconThemeDir \<Rightarrow> string \<Rightarrow> bool" where
  "theme_dir_has_icon_file dir icon_name =
     (case dcache dir of
        Some cache \<Rightarrow> table_lookup cache icon_name AND HAS_ICON_FILE \<noteq> 0
      | None \<Rightarrow> False)"

text \<open>\<^verbatim>\<open>compare_dir_matches\<close> (lines 2730-2792): TRUE if \<open>dir_a\<close> is a better match.\<close>

definition compare_dir_matches ::
  "IconThemeDir \<Rightarrow> int \<Rightarrow> IconThemeDir \<Rightarrow> int \<Rightarrow> int \<Rightarrow> int \<Rightarrow> bool" where
  "compare_dir_matches dir_a difference_a dir_b difference_b requested_size requested_scale =
     (case (if difference_a = 0
            then (if difference_b \<noteq> 0 then Some True else None)
            else (if dsize dir_a \<ge> requested_size \<and> dsize dir_b < requested_size
                  then Some True
                  else if dsize dir_a < requested_size \<and> dsize dir_b \<ge> requested_size
                  then Some False
                  else if difference_a < difference_b then Some True
                  else if difference_a > difference_b then Some False
                  else None))
      of Some returned \<Rightarrow> returned
       | None \<Rightarrow>
          if dscale dir_a = requested_scale \<and> dscale dir_b \<noteq> requested_scale then True
          else if dscale dir_a \<noteq> requested_scale \<and> dscale dir_b = requested_scale then False
          else if dtype dir_a \<noteq> ICON_THEME_DIR_SCALABLE \<and> dtype dir_b = ICON_THEME_DIR_SCALABLE
          then True
          else if dtype dir_a = ICON_THEME_DIR_SCALABLE \<and> dtype dir_b \<noteq> ICON_THEME_DIR_SCALABLE
          then False
          else (let diff_a = \<bar>requested_size * requested_scale - dsize dir_a * dscale dir_a\<bar>;
                    diff_b = \<bar>requested_size * requested_scale - dsize dir_b * dscale dir_b\<bar>
                in diff_a \<le> diff_b))"

text \<open>
  The \<^verbatim>\<open>while\<close> loop of \<^verbatim>\<open>theme_lookup_icon\<close> (lines 2829-2857) over the directories
  still to visit, with the running best \<^verbatim>\<open>min_dir\<close> (NULL is \<open>None\<close>) and
  \<^verbatim>\<open>min_difference\<close>.
\<close>

fun theme_lookup_icon_loop ::
  "string \<Rightarrow> int \<Rightarrow> int \<Rightarrow> bool \<Rightarrow> IconThemeDir list \<Rightarrow> IconThemeDir option \<Rightarrow> int
     \<Rightarrow> error + (IconThemeDir option \<times> int)" where
  "theme_lookup_icon_loop icon_name sz scale allow_svg [] min_dir min_difference =
     Inr (min_dir, min_difference)"
| "theme_lookup_icon_loop icon_name sz scale allow_svg (dir # l) min_dir min_difference =
     (if best_suffix (theme_dir_get_icon_suffix dir icon_name) allow_svg \<noteq> ICON_SUFFIX_NONE
      then (case theme_dir_size_difference dir sz scale of
              Inl e \<Rightarrow> Inl e
            | Inr difference \<Rightarrow>
                if (case min_dir of
                      None \<Rightarrow> True
                    | Some m \<Rightarrow> compare_dir_matches dir difference m min_difference sz scale)
                then theme_lookup_icon_loop icon_name sz scale allow_svg l (Some dir) difference
                else theme_lookup_icon_loop icon_name sz scale allow_svg l min_dir min_difference)
      else theme_lookup_icon_loop icon_name sz scale allow_svg l min_dir min_difference)"

subsection \<open>BuiltinRegistry\<close>

text \<open>\<^verbatim>\<open>BuiltinIcon\<close>: the fields \<^verbatim>\<open>size\<close> and \<^verbatim>\<open>pixbuf\<close> (a raster handle, here a number).\<close>

record BuiltinIcon =
  bsize :: int
  bpixbuf :: nat

text \<open>
  The \<^verbatim>\<open>while (icons)\<close> loop of \<^verbatim>\<open>find_builtin_icon\<close> (lines 5149-5186) with its
  variables \<^verbatim>\<open>min_difference\<close>, \<^verbatim>\<open>has_larger\<close> and \<^verbatim>\<open>min_icon\<close>; \<open>sz\<close> is the size
  already multiplied by the scale.
\<close>

fun find_builtin_icon_loop ::
  "int \<Rightarrow> BuiltinIcon list \<Rightarrow> int \<Rightarrow> bool \<Rightarrow> BuiltinIcon option \<Rightarrow> BuiltinIcon option \<times> int" where
  "find_builtin_icon_loop sz [] min_difference has_larger min_icon = (min_icon, min_difference)"
| "find_builtin_icon_loop sz (default_icon # icons) min_difference has_larger min_icon =
     (let lo = bsize default_icon - 2;
          hi = bsize default_icon + 2;
          smaller = sz < lo;
          difference = (if sz < lo then lo - sz else if sz > hi then sz - hi else 0)
      in if difference = 0 then (Some default_icon, min_difference)
         else if \<not> has_larger
         then (if difference < min_difference \<or> smaller
               then find_builtin_icon_loop sz icons difference smaller (Some default_icon)
               else find_builtin_icon_loop sz icons min_difference has_larger min_icon)
         else (if difference < min_difference \<and> smaller
               then find_builtin_icon_loop sz icons difference has_larger (Some default_icon)
               else find_builtin_icon_loop sz icons min_difference has_larger min_icon))"

text \<open>
  The process-wide state: the table \<^verbatim>\<open>icon_theme_builtin_icons\<close> (NULL until the first
  registration), the list \<^verbatim>\<open>builtin_dirs\<close>, the flag \<^verbatim>\<open>initialized\<close> of
  \<^verbatim>\<open>_gtk_icon_theme_ensure_builtin_cache\<close>, and the compiled-in icon cache that function
  wraps (\<^verbatim>\<open>builtin_icons\<close> of \<^verbatim>\<open>gtkbuiltincache.h\<close>, not among the sources: a parameter).
\<close>

record globals =
  icon_theme_builtin_icons :: "(string \<times> BuiltinIcon list) list option"
  builtin_dirs :: "IconThemeDir list"
  initialized :: bool
  builtin_icons :: "(string \<times> (string \<times> 32 word) list) list"

text \<open>
  \<^verbatim>\<open>find_builtin_icon\<close> (lines 5133-5192): the icon found and the value written to
  \<^verbatim>\<open>*min_difference_p\<close>; \<open>None\<close> for the early \<^verbatim>\<open>return NULL\<close>, which leaves the out
  parameter as it was.
\<close>

definition find_builtin_icon ::
  "globals \<Rightarrow> string \<Rightarrow> int \<Rightarrow> int \<Rightarrow> (BuiltinIcon option \<times> int) option" where
  "find_builtin_icon g icon_name sz scale =
     (case icon_theme_builtin_icons g of
        None \<Rightarrow> None
      | Some tab \<Rightarrow>
          Some (find_builtin_icon_loop (sz * scale)
                  (case map_of tab icon_name of None \<Rightarrow> [] | Some icons \<Rightarrow> icons)
                  G_MAXINT False None))"

subsection \<open>Request keys and resolved icons\<close>

text \<open>
  The lookup flags are declared in \<^verbatim>\<open>gtkicontheme.h\<close>, which is not among the sources;
  they are the single bits of GTK+ 3.12. No theorem below depends on their values.
\<close>

type_synonym GtkIconLookupFlags = "32 word"

definition GTK_ICON_LOOKUP_NO_SVG :: GtkIconLookupFlags where
  "GTK_ICON_LOOKUP_NO_SVG = 1"

definition GTK_ICON_LOOKUP_FORCE_SVG :: GtkIconLookupFlags where
  "GTK_ICON_LOOKUP_FORCE_SVG = 2"

definition GTK_ICON_LOOKUP_USE_BUILTIN :: GtkIconLookupFlags where
  "GTK_ICON_LOOKUP_USE_BUILTIN = 4"

definition GTK_ICON_LOOKUP_FORCE_SIZE :: GtkIconLookupFlags where
  "GTK_ICON_LOOKUP_FORCE_SIZE = 16"

definition DEFAULT_THEME_NAME :: string where
  "DEFAULT_THEME_NAME = ''hicolor''"

definition INFO_CACHE_LRU_SIZE :: nat where
  "INFO_CACHE_LRU_SIZE = 32"

text \<open>\<^verbatim>\<open>IconInfoKey\<close>: the fields \<^verbatim>\<open>icon_names, size, scale, flags\<close>.\<close>

record IconInfoKey =
  icon_names :: "string list"
  ksize :: int
  kscale :: int
  kflags :: GtkIconLookupFlags

text \<open>
  The \<^verbatim>\<open>for\<close> loop of \<^verbatim>\<open>icon_info_key_equal\<close> (lines 419-427) over the two name arrays
  from the current index on, and the \<^verbatim>\<open>return\<close> that follows it.
\<close>

fun icon_names_equal :: "string list \<Rightarrow> string list \<Rightarrow> bool" where
  "icon_names_equal (a # as) (b # bs) = (if a \<noteq> b then False else icon_names_equal as bs)"
| "icon_names_equal as bs = (as = [] \<and> bs = [])"

text \<open>\<^verbatim>\<open>icon_info_key_equal\<close> (lines 402-428).\<close>

definition icon_info_key_equal :: "IconInfoKey \<Rightarrow> IconInfoKey \<Rightarrow> bool" where
  "icon_info_key_equal a b =
     (if ksize a \<noteq> ksize b then False
      else if kscale a \<noteq> kscale b then False
      else if kflags a \<noteq> kflags b then False
      else icon_names_equal (icon_names a) (icon_names b))"

text \<open>
  \<^verbatim>\<open>GtkIconInfo\<close>, the fields the lookup and the caches use. The fields of the rendering
  pipeline (\<^verbatim>\<open>pixbuf, scale, unscaled_scale, emblem_infos, data, symbolic_pixbuf_cache\<close>,
  ...) are left out; \<open>proxy_pixbuf\<close> only records whether the pointer is set, and
  \<open>ref_count\<close> is the reference count of the \<^verbatim>\<open>GObject\<close>.
\<close>

record GtkIconInfo =
  key :: IconInfoKey
  in_cache :: bool
  filename :: "string option"
  cache_pixbuf :: "nat option"
  dir_type :: IconThemeDirType
  dir_size :: int
  dir_scale :: int
  threshold :: int
  desired_size :: int
  desired_scale :: int
  forced_size :: bool
  proxy_pixbuf :: bool
  ref_count :: nat

text \<open>\<^verbatim>\<open>icon_info_new\<close> (lines 3299-3312) and \<^verbatim>\<open>icon_info_new_builtin\<close> (lines 3357-3366).\<close>

definition icon_info_new :: "IconThemeDirType \<Rightarrow> int \<Rightarrow> int \<Rightarrow> GtkIconInfo" where
  "icon_info_new type' dir_size' dir_scale' =
     \<lparr> key = \<lparr> icon_names = [], ksize = 0, kscale = 0, kflags = 0 \<rparr>,
       in_cache = False, filename = None, cache_pixbuf = None,
       dir_type = type', dir_size = dir_size', dir_scale = dir_scale', threshold = 0,
       desired_size = 0, desired_scale = 0, forced_size = False, proxy_pixbuf = False,
       ref_count = 1 \<rparr>"

definition icon_info_new_builtin :: "BuiltinIcon \<Rightarrow> GtkIconInfo" where
  "icon_info_new_builtin icon =
     (icon_info_new ICON_THEME_DIR_THRESHOLD (bsize icon) 1)
       \<lparr> cache_pixbuf := Some (bpixbuf icon), threshold := 2 \<rparr>"

text \<open>\<^verbatim>\<open>IconTheme\<close>: the fields \<^verbatim>\<open>name, display_name, comment, example, dirs\<close>.\<close>

record IconTheme =
  tname :: string
  tdisplay_name :: "string option"
  tcomment :: "string option"
  texample :: "string option"
  tdirs :: "IconThemeDir list"

text \<open>
  \<^verbatim>\<open>g_build_filename\<close> of GLib on two elements that carry no separator at the joint.
\<close>

definition g_build_filename :: "string \<Rightarrow> string \<Rightarrow> string" where
  "g_build_filename a b = a @ ''/'' @ b"

text \<open>
  \<^verbatim>\<open>theme_lookup_icon\<close> (lines 2794-2932). The result is the new \<^verbatim>\<open>GtkIconInfo\<close> (or
  NULL); the icon data and the cached pixbuf of an external icon cache, which belong to
  rendering, are not part of it.
\<close>

definition theme_lookup_icon ::
  "globals \<Rightarrow> IconTheme \<Rightarrow> string \<Rightarrow> int \<Rightarrow> int \<Rightarrow> bool \<Rightarrow> bool \<Rightarrow> error + GtkIconInfo option" where
  "theme_lookup_icon g theme icon_name sz scale allow_svg use_builtin =
     (let builtin = (use_builtin \<and> tname theme = DEFAULT_THEME_NAME);
          found = (if builtin then find_builtin_icon g icon_name sz scale else None);
          closest_builtin = (case found of None \<Rightarrow> None | Some (icon, _) \<Rightarrow> icon);
          min_difference = (case found of None \<Rightarrow> G_MAXINT | Some (_, d) \<Rightarrow> d)
      in if builtin \<and> min_difference = 0
         then (case closest_builtin of
                 None \<Rightarrow> Inl NullDereference
               | Some icon \<Rightarrow> Inr (Some (icon_info_new_builtin icon)))
         else
           (let dirs = (if builtin
                        then (if builtin_dirs g = [] then [] else builtin_dirs g @ tdirs theme)
                        else tdirs theme)
            in case theme_lookup_icon_loop icon_name sz scale allow_svg dirs None min_difference of
                 Inl e \<Rightarrow> Inl e
               | Inr (Some min_dir, _) \<Rightarrow>
                   (let suffix = best_suffix (theme_dir_get_icon_suffix min_dir icon_name) allow_svg
                    in if suffix = ICON_SUFFIX_NONE then Inl AssertionFailed
                       else
                         (case ddir min_dir of
                            Some d \<Rightarrow>
                              (case string_from_suffix suffix of
                                 Inl e \<Rightarrow> Inl e
                               | Inr ext \<Rightarrow>
                                   Inr (Some ((icon_info_new (dtype min_dir) (dsize min_dir) (dscale min_dir))
                                     \<lparr> threshold := dthreshold min_dir,
                                       filename := Some (g_build_filename d (icon_name @ ext)) \<rparr>)))
                          | None \<Rightarrow>
                              Inr (Some ((icon_info_new (dtype min_dir) (dsize min_dir) (dscale min_dir))
                                     \<lparr> threshold := dthreshold min_dir, filename := None \<rparr>))))
               | Inr (None, _) \<Rightarrow>
                   (case closest_builtin of
                      Some icon \<Rightarrow> Inr (Some (icon_info_new_builtin icon))
                    | None \<Rightarrow> Inr None)))"

subsection \<open>The state of a \<^verbatim>\<open>GtkIconTheme\<close>\<close>

text \<open>
  An external icon cache (\<^verbatim>\<open>GtkIconCache\<close>, an opaque index in the source): for each
  subdirectory it lists, the flag word of each icon name.
\<close>

type_synonym icon_cache = "(string \<times> (string \<times> 32 word) list) list"

record UnthemedIcon =
  svg_filename :: "string option"
  no_svg_filename :: "string option"

text \<open>\<^verbatim>\<open>IconThemeDirMtime\<close>: the fields \<^verbatim>\<open>dir, mtime, cache\<close>; \<open>mmtime = 0\<close> stands for
  "not existing or not a directory", as the source's comment says.\<close>

record IconThemeDirMtime =
  mdir :: string
  mmtime :: int
  mcache :: "icon_cache option"

text \<open>
  \<^verbatim>\<open>GtkIconThemePrivate\<close>, together with what the functions below touch outside of it:
  \<^item> \<open>icon_infos\<close> is the heap of \<^verbatim>\<open>GtkIconInfo\<close> objects, from addresses to objects
    (\<open>None\<close>: freed or never allocated), and \<open>next_info\<close> the address the next
    \<^verbatim>\<open>g_object_new\<close> returns;
  \<^item> \<open>info_cache\<close> lists the values of the hash table \<^verbatim>\<open>priv->info_cache\<close>; the key of
    an entry is \<^verbatim>\<open>&icon_info->key\<close>, the key stored in the object itself;
  \<^item> \<open>theme_changed_idle\<close> tells whether the idle source is installed (the field is
    not 0), and \<open>changed_emitted\<close> counts the emissions of the "changed" signal;
  \<^item> \<open>stat_calls\<close> counts the calls of \<^verbatim>\<open>g_stat\<close>.
\<close>

record GtkIconTheme =
  info_cache :: "nat list"
  info_cache_lru :: "nat list"
  current_theme :: "string option"
  search_path :: "string list"
  pixbuf_supports_svg :: bool
  themes_valid :: bool
  loading_themes :: bool
  themes :: "IconTheme list"
  unthemed_icons :: "(string \<times> UnthemedIcon) list"
  all_icons :: "string list"
  last_stat_time :: int
  dir_mtimes :: "IconThemeDirMtime list"
  theme_changed_idle :: bool
  icon_infos :: "nat \<Rightarrow> GtkIconInfo option"
  next_info :: nat
  changed_emitted :: nat
  stat_calls :: nat

subsection \<open>Reference counts and the primary cache\<close>

definition g_object_ref :: "nat \<Rightarrow> GtkIconTheme \<Rightarrow> GtkIconTheme" where
  "g_object_ref p s =
     (case icon_infos s p of
        None \<Rightarrow> s
      | Some i \<Rightarrow> s\<lparr> icon_infos := (icon_infos s)(p \<mapsto> i\<lparr> ref_count := ref_count i + 1 \<rparr>) \<rparr>)"

text \<open>
  \<^verbatim>\<open>g_object_unref\<close> on an object that is in no cache (\<^verbatim>\<open>in_cache\<close> is NULL), so that
  \<^verbatim>\<open>gtk_icon_info_finalize\<close> only frees it. GLib refuses to drop a reference of an object
  whose count is already 0 (the object is being finalized) and returns.
\<close>

definition g_object_unref_detached :: "nat \<Rightarrow> GtkIconTheme \<Rightarrow> GtkIconTheme" where
  "g_object_unref_detached p s =
     (case icon_infos s p of
        None \<Rightarrow> s
      | Some i \<Rightarrow>
          if ref_count i = 0 then s
          else if ref_count i = 1 then s\<lparr> icon_infos := (icon_infos s)(p := None) \<rparr>
          else s\<lparr> icon_infos := (icon_infos s)(p \<mapsto> i\<lparr> ref_count := ref_count i - 1 \<rparr>) \<rparr>)"

text \<open>
  \<^verbatim>\<open>icon_info_uncached\<close> (lines 709-727), the destroy notification of the hash table's
  values. It clears \<^verbatim>\<open>in_cache\<close> before it calls \<^verbatim>\<open>remove_from_lru_cache\<close> (lines
  1497-1513), whose \<^verbatim>\<open>g_object_unref\<close> therefore acts on an object in no cache.
\<close>

definition icon_info_uncached :: "nat \<Rightarrow> GtkIconTheme \<Rightarrow> GtkIconTheme" where
  "icon_info_uncached p s =
     (case icon_infos s p of
        None \<Rightarrow> s
      | Some i \<Rightarrow>
          (let s1 = s\<lparr> icon_infos := (icon_infos s)(p \<mapsto> i\<lparr> in_cache := False \<rparr>) \<rparr>
           in if in_cache i
              then (if p \<in> set (info_cache_lru s1)
                    then g_object_unref_detached p
                           (s1\<lparr> info_cache_lru := remove1 p (info_cache_lru s1) \<rparr>)
                    else s1)
              else s1))"

text \<open>
  The hash table \<^verbatim>\<open>info_cache\<close>, created with \<^verbatim>\<open>icon_info_key_equal\<close> and the destroy
  notification \<^verbatim>\<open>icon_info_uncached\<close> (line 739): lookup, removal of a key, removal of
  all entries.
\<close>

definition key_matches :: "GtkIconTheme \<Rightarrow> IconInfoKey \<Rightarrow> nat \<Rightarrow> bool" where
  "key_matches s k p =
     (case icon_infos s p of None \<Rightarrow> False | Some i \<Rightarrow> icon_info_key_equal (key i) k)"

definition g_hash_table_lookup :: "GtkIconTheme \<Rightarrow> IconInfoKey \<Rightarrow> nat option" where
  "g_hash_table_lookup s k = find (key_matches s k) (info_cache s)"

definition g_hash_table_remove :: "IconInfoKey \<Rightarrow> GtkIconTheme \<Rightarrow> GtkIconTheme" where
  "g_hash_table_remove k s =
     (case g_hash_table_lookup s k of
        None \<Rightarrow> s
      | Some p \<Rightarrow> icon_info_uncached p (s\<lparr> info_cache := remove1 p (info_cache s) \<rparr>))"

definition g_hash_table_remove_all :: "GtkIconTheme \<Rightarrow> GtkIconTheme" where
  "g_hash_table_remove_all s =
     fold icon_info_uncached (info_cache s) (s\<lparr> info_cache := [] \<rparr>)"

text \<open>
  \<^verbatim>\<open>gtk_icon_info_finalize\<close> (lines 3407-3431): the removal from the cache, then the
  object is freed. \<^verbatim>\<open>g_object_unref\<close> drops a reference and finalizes the object with
  its last one.
\<close>

definition gtk_icon_info_finalize :: "nat \<Rightarrow> GtkIconTheme \<Rightarrow> GtkIconTheme" where
  "gtk_icon_info_finalize p s =
     (case icon_infos s p of
        None \<Rightarrow> s
      | Some i \<Rightarrow>
          (let s1 = (if in_cache i then g_hash_table_remove (key i) s else s)
           in s1\<lparr> icon_infos := (icon_infos s1)(p := None) \<rparr>))"

definition g_object_unref :: "nat \<Rightarrow> GtkIconTheme \<Rightarrow> GtkIconTheme" where
  "g_object_unref p s =
     (case icon_infos s p of
        None \<Rightarrow> s
      | Some i \<Rightarrow>
          if ref_count i = 0 then s
          else if ref_count i = 1
          then gtk_icon_info_finalize p
                 (s\<lparr> icon_infos := (icon_infos s)(p \<mapsto> i\<lparr> ref_count := 0 \<rparr>) \<rparr>)
          else s\<lparr> icon_infos := (icon_infos s)(p \<mapsto> i\<lparr> ref_count := ref_count i - 1 \<rparr>) \<rparr>)"

subsection \<open>The LRU side list\<close>

text \<open>\<^verbatim>\<open>remove_from_lru_cache\<close> (lines 1497-1513).\<close>

definition remove_from_lru_cache :: "nat \<Rightarrow> GtkIconTheme \<Rightarrow> GtkIconTheme" where
  "remove_from_lru_cache icon_info s =
     (if icon_info \<in> set (info_cache_lru s)
      then g_object_unref icon_info
             (s\<lparr> info_cache_lru := remove1 icon_info (info_cache_lru s) \<rparr>)
      else s)"

text \<open>\<^verbatim>\<open>ensure_lru_cache_space\<close> (lines 1436-1457): \<^verbatim>\<open>g_list_nth\<close> finds a link iff the
  list has more than \<open>INFO_CACHE_LRU_SIZE - 1\<close> elements.\<close>

definition ensure_lru_cache_space :: "GtkIconTheme \<Rightarrow> GtkIconTheme" where
  "ensure_lru_cache_space s =
     (let n = INFO_CACHE_LRU_SIZE - 1
      in if n < length (info_cache_lru s)
         then (let icon_info = info_cache_lru s ! n
               in g_object_unref icon_info
                    (s\<lparr> info_cache_lru := take n (info_cache_lru s) @ drop (Suc n) (info_cache_lru s) \<rparr>))
         else s)"

text \<open>\<^verbatim>\<open>add_to_lru_cache\<close> (lines 1459-1477).\<close>

definition add_to_lru_cache :: "nat \<Rightarrow> GtkIconTheme \<Rightarrow> error + GtkIconTheme" where
  "add_to_lru_cache icon_info s =
     (if icon_info \<in> set (info_cache_lru s) then Inl AssertionFailed
      else (let s1 = ensure_lru_cache_space s;
                s2 = g_object_ref icon_info s1
            in Inr (s2\<lparr> info_cache_lru := icon_info # info_cache_lru s2 \<rparr>)))"

text \<open>\<^verbatim>\<open>ensure_in_lru_cache\<close> (lines 1479-1495).\<close>

definition ensure_in_lru_cache :: "nat \<Rightarrow> GtkIconTheme \<Rightarrow> error + GtkIconTheme" where
  "ensure_in_lru_cache icon_info s =
     (if icon_info \<in> set (info_cache_lru s)
      then Inr (s\<lparr> info_cache_lru := icon_info # remove1 icon_info (info_cache_lru s) \<rparr>)
      else add_to_lru_cache icon_info s)"

text \<open>
  \<^verbatim>\<open>proxy_pixbuf_destroy\<close> (lines 3869-3883), run when the last reference to the proxy
  pixbuf handed out by \<^verbatim>\<open>gtk_icon_info_load_icon\<close> is released: it parks the icon info.
\<close>

definition proxy_pixbuf_destroy :: "nat \<Rightarrow> GtkIconTheme \<Rightarrow> error + GtkIconTheme" where
  "proxy_pixbuf_destroy icon_info s =
     (case icon_infos s icon_info of
        None \<Rightarrow> Inl NullDereference
      | Some i \<Rightarrow>
          if \<not> proxy_pixbuf i then Inl AssertionFailed
          else (let s1 = s\<lparr> icon_infos := (icon_infos s)(icon_info \<mapsto> i\<lparr> proxy_pixbuf := False \<rparr>) \<rparr>
                in case (if in_cache i then ensure_in_lru_cache icon_info s1 else Inr s1) of
                     Inl e \<Rightarrow> Inl e
                   | Inr s2 \<Rightarrow> Inr (g_object_unref icon_info s2)))"

subsection \<open>The file system and the theme descriptors\<close>

text \<open>
  What the registry reads from outside, as data.
  \<^item> \<open>fs_dirs\<close>: the paths for which \<^verbatim>\<open>g_stat\<close> succeeds with \<^verbatim>\<open>S_ISDIR\<close>, each with its
    \<^verbatim>\<open>st_mtime\<close>.
  \<^item> \<open>fs_index_theme\<close>: the paths that are regular files read as theme descriptors, each
    with the key file \<^verbatim>\<open>g_key_file_load_from_file\<close> produces, or \<open>None\<close> when it sets
    an error.
  \<^item> \<open>fs_dir_entries\<close>: the directories \<^verbatim>\<open>g_dir_open\<close> opens, with the names
    \<^verbatim>\<open>g_dir_read_name\<close> returns.
  \<^item> \<open>fs_icon_caches\<close>: the directories for which \<^verbatim>\<open>_gtk_icon_cache_new_for_path\<close>
    returns a cache.
  A key file holds the keys of the group \<^verbatim>\<open>Icon Theme\<close> and one group per
  subdirectory, with integers as \<^verbatim>\<open>g_key_file_get_integer\<close> reads them (\<open>None\<close>: the key is
  absent).
\<close>

record key_file_group =
  g_size :: "int option"
  g_type :: "string option"
  g_max_size :: "int option"
  g_min_size :: "int option"
  g_threshold :: "int option"
  g_scale :: "int option"

record key_file =
  kf_name :: "string option"
  kf_comment :: "string option"
  kf_example :: "string option"
  kf_directories :: "string list option"
  kf_scaled_directories :: "string list option"
  kf_inherits :: "string list option"
  kf_groups :: "(string \<times> key_file_group) list"

record file_system =
  fs_dirs :: "(string \<times> int) list"
  fs_index_theme :: "(string \<times> key_file option) list"
  fs_dir_entries :: "(string \<times> string list) list"
  fs_icon_caches :: "(string \<times> icon_cache) list"

text \<open>\<^verbatim>\<open>strip_suffix\<close> (lines 1220-1231): the name up to its last dot.\<close>

definition strip_suffix :: "string \<Rightarrow> string" where
  "strip_suffix file =
     (if CHR ''.'' \<in> set file
      then rev (tl (dropWhile (\<lambda>c. c \<noteq> CHR ''.'') (rev file)))
      else file)"

text \<open>
  The \<^verbatim>\<open>while\<close> loop of \<^verbatim>\<open>scan_directory\<close> (lines 3067-3120) over the names of the
  directory, on the pair of \<^verbatim>\<open>icon_theme->all_icons\<close> and \<^verbatim>\<open>dir->icons\<close>. The sidecar files
  \<^verbatim>\<open>*.icon\<close> only feed the icon data, which is not modelled.
\<close>

fun scan_directory_loop ::
  "string list \<Rightarrow> string list \<times> (string \<times> IconSuffix) list
     \<Rightarrow> string list \<times> (string \<times> IconSuffix) list" where
  "scan_directory_loop [] (all, icons) = (all, icons)"
| "scan_directory_loop (name # names) (all, icons) =
     (if g_str_has_suffix name ''.icon'' then scan_directory_loop names (all, icons)
      else (let suffix = suffix_from_name name
            in if suffix = ICON_SUFFIX_NONE then scan_directory_loop names (all, icons)
               else (let base_name = strip_suffix name;
                         hash_suffix = table_lookup icons base_name
                     in scan_directory_loop names
                          (List.insert base_name all,
                           AList.update base_name (hash_suffix OR suffix) icons))))"

definition scan_directory ::
  "file_system \<Rightarrow> string \<Rightarrow> string list \<Rightarrow> string list \<times> (string \<times> IconSuffix) list" where
  "scan_directory fs full_dir all =
     (case map_of (fs_dir_entries fs) full_dir of
        None \<Rightarrow> (all, [])
      | Some names \<Rightarrow> scan_directory_loop names (all, []))"

text \<open>
  The \<^verbatim>\<open>for\<close> loop of \<^verbatim>\<open>theme_subdir_load\<close> (lines 3194-3240) over \<^verbatim>\<open>priv->dir_mtimes\<close>:
  \<open>proto\<close> carries the values read from the key file, \<open>visited\<close> the entries already
  visited (a visit may set an entry's \<^verbatim>\<open>cache\<close>), \<open>tdirs'\<close> is \<^verbatim>\<open>theme->dirs\<close>.
\<close>

fun theme_subdir_load_loop ::
  "file_system \<Rightarrow> IconThemeDir \<Rightarrow> IconThemeDirMtime list
     \<Rightarrow> IconThemeDirMtime list \<times> string list \<times> IconThemeDir list
     \<Rightarrow> IconThemeDirMtime list \<times> string list \<times> IconThemeDir list" where
  "theme_subdir_load_loop fs proto [] (visited, all, tdirs') = (visited, all, tdirs')"
| "theme_subdir_load_loop fs proto (dir_mtime # d) (visited, all, tdirs') =
     (if mmtime dir_mtime = 0
      then theme_subdir_load_loop fs proto d (visited @ [dir_mtime], all, tdirs')
      else
        (let full_dir = g_build_filename (mdir dir_mtime) (dsubdir proto)
         in if mcache dir_mtime \<noteq> None \<or> map_of (fs_dirs fs) full_dir \<noteq> None
            then
              (let dir_mtime1 =
                     (if mcache dir_mtime = None
                      then dir_mtime\<lparr> mcache := map_of (fs_icon_caches fs) (mdir dir_mtime) \<rparr>
                      else dir_mtime)
               in case mcache dir_mtime1 of
                    Some cache \<Rightarrow>
                      theme_subdir_load_loop fs proto d
                        (visited @ [dir_mtime1], all,
                         proto\<lparr> ddir := Some full_dir,
                                dcache := Some (case map_of cache (dsubdir proto) of
                                                  None \<Rightarrow> [] | Some tab \<Rightarrow> tab),
                                dicons := [] \<rparr> # tdirs')
                  | None \<Rightarrow>
                      (let scanned = scan_directory fs full_dir all
                       in theme_subdir_load_loop fs proto d
                            (visited @ [dir_mtime1], fst scanned,
                             proto\<lparr> ddir := Some full_dir, dcache := None,
                                    dicons := snd scanned \<rparr> # tdirs')))
            else theme_subdir_load_loop fs proto d (visited @ [dir_mtime], all, tdirs')))"

text \<open>
  \<^verbatim>\<open>theme_subdir_load\<close> (lines 3122-3241), on the state and \<^verbatim>\<open>theme->dirs\<close>. A subdirectory
  without a \<^verbatim>\<open>Size\<close> is skipped with a warning.
\<close>

definition theme_subdir_load ::
  "file_system \<Rightarrow> key_file \<Rightarrow> string \<Rightarrow> GtkIconTheme \<times> IconThemeDir list
     \<Rightarrow> GtkIconTheme \<times> IconThemeDir list" where
  "theme_subdir_load fs theme_file subdir st =
     (case (case map_of (kf_groups theme_file) subdir of None \<Rightarrow> None | Some grp \<Rightarrow>
              (case g_size grp of None \<Rightarrow> None | Some sz \<Rightarrow> Some (grp, sz))) of
        None \<Rightarrow> st
      | Some (grp, sz) \<Rightarrow>
          (let type' = (case g_type grp of
                          None \<Rightarrow> ICON_THEME_DIR_THRESHOLD
                        | Some type_string \<Rightarrow>
                            if type_string = ''Fixed'' then ICON_THEME_DIR_FIXED
                            else if type_string = ''Scalable'' then ICON_THEME_DIR_SCALABLE
                            else ICON_THEME_DIR_THRESHOLD);
               max_size = (case g_max_size grp of Some v \<Rightarrow> v | None \<Rightarrow> sz);
               min_size = (case g_min_size grp of Some v \<Rightarrow> v | None \<Rightarrow> sz);
               threshold' = (case g_threshold grp of Some v \<Rightarrow> v | None \<Rightarrow> 2);
               scale = (case g_scale grp of Some v \<Rightarrow> v | None \<Rightarrow> 1);
               proto = \<lparr> dtype = type', dsize = sz, dmin_size = min_size, dmax_size = max_size,
                         dthreshold = threshold', dscale = scale, ddir = None, dsubdir = subdir,
                         dcache = None, dicons = [] \<rparr>;
               r = theme_subdir_load_loop fs proto (dir_mtimes (fst st))
                     ([], all_icons (fst st), snd st)
           in ((fst st)\<lparr> dir_mtimes := fst r, all_icons := fst (snd r) \<rparr>, snd (snd r))))"

subsection \<open>ThemeRegistry: loading\<close>

text \<open>
  The first loop of \<^verbatim>\<open>insert_theme\<close> (lines 1104-1119): one \<^verbatim>\<open>IconThemeDirMtime\<close> per
  search path element is prepended, then the whole list is reversed.
\<close>

definition theme_dir_mtime :: "file_system \<Rightarrow> string \<Rightarrow> string \<Rightarrow> IconThemeDirMtime" where
  "theme_dir_mtime fs theme_name root =
     (let path = g_build_filename root theme_name
      in \<lparr> mdir = path,
           mmtime = (case map_of (fs_dirs fs) path of Some t \<Rightarrow> t | None \<Rightarrow> 0),
           mcache = None \<rparr>)"

definition insert_theme_dir_mtimes :: "file_system \<Rightarrow> string \<Rightarrow> GtkIconTheme \<Rightarrow> GtkIconTheme" where
  "insert_theme_dir_mtimes fs theme_name s =
     s\<lparr> dir_mtimes :=
          rev (fold (\<lambda>root l. theme_dir_mtime fs theme_name root # l) (search_path s) (dir_mtimes s)),
        stat_calls := stat_calls s + length (search_path s) \<rparr>"

text \<open>
  The second loop of \<^verbatim>\<open>insert_theme\<close> (lines 1121-1142): the first \<^verbatim>\<open>index.theme\<close> on the
  search path that is a regular file and loads without error.
\<close>

fun find_theme_file :: "file_system \<Rightarrow> string list \<Rightarrow> string \<Rightarrow> key_file option" where
  "find_theme_file fs [] theme_name = None"
| "find_theme_file fs (root # roots) theme_name =
     (case map_of (fs_index_theme fs)
             (g_build_filename (g_build_filename root theme_name) ''index.theme'') of
        Some (Some theme_file) \<Rightarrow> Some theme_file
      | _ \<Rightarrow> find_theme_file fs roots theme_name)"

text \<open>
  Lines 1154-1194 of \<^verbatim>\<open>insert_theme\<close>: the theme built from a descriptor that has
  \<^verbatim>\<open>Directories\<close>, together with the state after the calls of \<^verbatim>\<open>theme_subdir_load\<close>.
\<close>

definition load_theme_subdirs ::
  "file_system \<Rightarrow> key_file \<Rightarrow> string \<Rightarrow> string list \<Rightarrow> GtkIconTheme \<Rightarrow> GtkIconTheme \<times> IconTheme" where
  "load_theme_subdirs fs theme_file theme_name dirs s =
     (let r1 = fold (theme_subdir_load fs theme_file) dirs (s, []);
          r2 = (case kf_scaled_directories theme_file of
                  None \<Rightarrow> r1
                | Some scaled_dirs \<Rightarrow> fold (theme_subdir_load fs theme_file) scaled_dirs r1)
      in (fst r2,
          \<lparr> tname = theme_name, tdisplay_name = kf_name theme_file,
            tcomment = kf_comment theme_file, texample = kf_example theme_file,
            tdirs = rev (snd r2) \<rparr>))"

text \<open>
  The names a run of \<^verbatim>\<open>insert_theme\<close> can ever be called with: those pending and those
  some descriptor of the file system lists under \<^verbatim>\<open>Inherits\<close>.
\<close>

definition inherited_names :: "file_system \<Rightarrow> string set" where
  "inherited_names fs =
     (\<Union>e \<in> set (fs_index_theme fs).
        case snd e of
          Some theme_file \<Rightarrow> (case kf_inherits theme_file of Some ts \<Rightarrow> set ts | None \<Rightarrow> {})
        | None \<Rightarrow> {})"

lemma themes_insert_theme_dir_mtimes [simp]:
  "themes (insert_theme_dir_mtimes fs n s) = themes s"
  by (simp add: insert_theme_dir_mtimes_def)

lemma search_path_insert_theme_dir_mtimes [simp]:
  "search_path (insert_theme_dir_mtimes fs n s) = search_path s"
  by (simp add: insert_theme_dir_mtimes_def)

lemma themes_theme_subdir_load [simp]:
  "themes (fst (theme_subdir_load fs kf d st)) = themes (fst st)"
  by (simp add: theme_subdir_load_def Let_def split: option.splits prod.splits)

lemma themes_fold_theme_subdir_load [simp]:
  "themes (fst (fold (theme_subdir_load fs kf) ds st)) = themes (fst st)"
  by (induction ds arbitrary: st) simp_all

lemma themes_load_theme_subdirs [simp]:
  "themes (fst (load_theme_subdirs fs kf n ds s)) = themes s"
  by (simp add: load_theme_subdirs_def Let_def split: option.splits)

lemma find_theme_file_inherits:
  "find_theme_file fs roots n = Some kf \<Longrightarrow> kf_inherits kf = Some ts \<Longrightarrow>
   set ts \<subseteq> inherited_names fs"
proof (induction roots)
  case Nil
  then show ?case by simp
next
  case (Cons root roots)
  let ?p = "g_build_filename (g_build_filename root n) ''index.theme''"
  show ?case
  proof (cases "map_of (fs_index_theme fs) ?p = Some (Some kf)")
    case True
    then have "(?p, Some kf) \<in> set (fs_index_theme fs)" by (rule map_of_SomeD)
    with Cons.prems(2) show ?thesis by (force simp: inherited_names_def)
  next
    case False
    with Cons show ?thesis by (auto split: option.splits)
  qed
qed

text \<open>
  \<^verbatim>\<open>insert_theme\<close> (lines 1079-1210). Its recursive calls, one per name of \<^verbatim>\<open>Inherits\<close>,
  are the last thing it does to the state, so the calls still to make form a stack: the
  list \<open>pending\<close> of theme names. \<open>insert_themes fs pending s\<close> runs
  \<^verbatim>\<open>insert_theme\<close> on the names of \<open>pending\<close> in order. A descriptor without
  \<^verbatim>\<open>Directories\<close> has its theme prepended and removed again (line 1163).
\<close>

function insert_themes :: "file_system \<Rightarrow> string list \<Rightarrow> GtkIconTheme \<Rightarrow> GtkIconTheme" where
  "insert_themes fs [] s = s"
| "insert_themes fs (theme_name # pending) s =
     (if theme_name \<in> tname ` set (themes s) then insert_themes fs pending s
      else
        (case find_theme_file fs (search_path s) theme_name of
           None \<Rightarrow>
             if theme_name = DEFAULT_THEME_NAME
             then insert_themes fs pending
                    ((insert_theme_dir_mtimes fs theme_name s)
                       \<lparr> themes := \<lparr> tname = theme_name, tdisplay_name = None, tcomment = None,
                                     texample = None, tdirs = [] \<rparr> # themes s \<rparr>)
             else insert_themes fs pending (insert_theme_dir_mtimes fs theme_name s)
         | Some theme_file \<Rightarrow>
             (case kf_directories theme_file of
                None \<Rightarrow> insert_themes fs pending (insert_theme_dir_mtimes fs theme_name s)
              | Some dirs \<Rightarrow>
                  insert_themes fs
                    ((case kf_inherits theme_file of None \<Rightarrow> [] | Some ts \<Rightarrow> ts) @ pending)
                    ((fst (load_theme_subdirs fs theme_file theme_name dirs
                             (insert_theme_dir_mtimes fs theme_name s)))
                       \<lparr> themes :=
                            snd (load_theme_subdirs fs theme_file theme_name dirs
                                   (insert_theme_dir_mtimes fs theme_name s)) # themes s \<rparr>))))"
  by pat_completeness auto


lemma finite_inherited_names: "finite (inherited_names fs)"
  by (auto simp: inherited_names_def split: option.splits)

lemma tname_load_theme_subdirs [simp]:
  "tname (snd (load_theme_subdirs fs kf n ds s)) = n"
  by (simp add: load_theme_subdirs_def Let_def)

lemma card_diff_le:
  "finite A \<Longrightarrow> A' \<subseteq> A \<Longrightarrow> N \<subseteq> N' \<Longrightarrow> card (A' - N') \<le> card (A - N)"
  by (rule card_mono) auto

lemma card_diff_less:
  "finite A \<Longrightarrow> A' \<subseteq> A \<Longrightarrow> N \<subseteq> N' \<Longrightarrow> x \<in> A \<Longrightarrow> x \<notin> N \<Longrightarrow> x \<in> N'
   \<Longrightarrow> card (A' - N') < card (A - N)"
  by (rule psubset_card_mono) auto

text \<open>
  Termination: the names not yet inserted, among those pending or inherited somewhere,
  become fewer with every theme inserted, and otherwise the stack becomes shorter.
\<close>

definition pending_universe :: "file_system \<Rightarrow> string list \<Rightarrow> string set" where
  "pending_universe fs pending = set pending \<union> inherited_names fs"

definition insert_measure :: "file_system \<times> string list \<times> GtkIconTheme \<Rightarrow> nat \<times> nat" where
  "insert_measure = (\<lambda>(fs, pending, s).
     (card (pending_universe fs pending - tname ` set (themes s)), length pending))"

termination insert_themes
proof (relation "inv_image (less_than <*lex*> less_than) insert_measure", goal_cases)
  case 1
  show ?case by (intro wf_inv_image wf_lex_prod wf_less_than)
next
  case (2 fs theme_name pending s)
  have "card (pending_universe fs pending - tname ` set (themes s))
        \<le> card (pending_universe fs (theme_name # pending) - tname ` set (themes s))"
    by (rule card_diff_le) (auto simp: pending_universe_def finite_inherited_names)
  then show ?case by (auto simp: insert_measure_def)
next
  case (3 fs theme_name pending s)
  have "card (pending_universe fs pending - insert theme_name (tname ` set (themes s)))
        \<le> card (pending_universe fs (theme_name # pending) - tname ` set (themes s))"
    by (rule card_diff_le) (auto simp: pending_universe_def finite_inherited_names)
  then show ?case by (auto simp: insert_measure_def)
next
  case (4 fs theme_name pending s)
  have "card (pending_universe fs pending - tname ` set (themes s))
        \<le> card (pending_universe fs (theme_name # pending) - tname ` set (themes s))"
    by (rule card_diff_le) (auto simp: pending_universe_def finite_inherited_names)
  then show ?case by (auto simp: insert_measure_def)
next
  case (5 fs theme_name pending s theme_file)
  have "card (pending_universe fs pending - tname ` set (themes s))
        \<le> card (pending_universe fs (theme_name # pending) - tname ` set (themes s))"
    by (rule card_diff_le) (auto simp: pending_universe_def finite_inherited_names)
  then show ?case by (auto simp: insert_measure_def)
next
  case (6 fs theme_name pending s theme_file dirs)
  let ?ts = "case kf_inherits theme_file of None \<Rightarrow> [] | Some ts \<Rightarrow> ts"
  have sub: "set ?ts \<subseteq> inherited_names fs"
  proof (cases "kf_inherits theme_file")
    case None
    then show ?thesis by simp
  next
    case (Some ts)
    with find_theme_file_inherits[OF 6(2) Some] show ?thesis by simp
  qed
  have "card (pending_universe fs (?ts @ pending) - insert theme_name (tname ` set (themes s)))
        < card (pending_universe fs (theme_name # pending) - tname ` set (themes s))"
    apply (rule card_diff_less[where x = theme_name])
    using sub 6(1) by (auto simp: pending_universe_def finite_inherited_names)
  then show ?case by (auto simp: insert_measure_def)
qed

definition insert_theme :: "file_system \<Rightarrow> string \<Rightarrow> GtkIconTheme \<Rightarrow> GtkIconTheme" where
  "insert_theme fs theme_name s = insert_themes fs [theme_name] s"

text \<open>
  The \<^verbatim>\<open>while\<close> loop of \<^verbatim>\<open>load_themes\<close> (lines 1290-1348) over the files of one search
  path element, on the pair of \<^verbatim>\<open>priv->unthemed_icons\<close> and \<^verbatim>\<open>priv->all_icons\<close>.
\<close>

fun load_unthemed_loop ::
  "string \<Rightarrow> string list \<Rightarrow> (string \<times> UnthemedIcon) list \<times> string list
     \<Rightarrow> (string \<times> UnthemedIcon) list \<times> string list" where
  "load_unthemed_loop dir [] (unthemed, all) = (unthemed, all)"
| "load_unthemed_loop dir (file # files) (unthemed, all) =
     (let new_suffix = suffix_from_name file
      in if new_suffix = ICON_SUFFIX_NONE then load_unthemed_loop dir files (unthemed, all)
         else
           (let abs_file = g_build_filename dir file;
                base_name = strip_suffix file
            in case map_of unthemed base_name of
                 Some unthemed_icon \<Rightarrow>
                   load_unthemed_loop dir files
                     (AList.update base_name
                        (if new_suffix = ICON_SUFFIX_SVG
                         then (if svg_filename unthemed_icon \<noteq> None then unthemed_icon
                               else unthemed_icon\<lparr> svg_filename := Some abs_file \<rparr>)
                         else (case no_svg_filename unthemed_icon of
                                 Some old \<Rightarrow>
                                   if new_suffix > suffix_from_name old
                                   then unthemed_icon\<lparr> no_svg_filename := Some abs_file \<rparr>
                                   else unthemed_icon
                               | None \<Rightarrow> unthemed_icon\<lparr> no_svg_filename := Some abs_file \<rparr>))
                        unthemed,
                      all)
               | None \<Rightarrow>
                   load_unthemed_loop dir files
                     (AList.update base_name
                        (if new_suffix = ICON_SUFFIX_SVG
                         then \<lparr> svg_filename = Some abs_file, no_svg_filename = None \<rparr>
                         else \<lparr> svg_filename = None, no_svg_filename = Some abs_file \<rparr>)
                        unthemed,
                      List.insert base_name all)))"

text \<open>The \<^verbatim>\<open>for\<close> loop of \<^verbatim>\<open>load_themes\<close> (lines 1267-1350) over the search path.\<close>

fun load_themes_loop :: "file_system \<Rightarrow> string list \<Rightarrow> GtkIconTheme \<Rightarrow> GtkIconTheme" where
  "load_themes_loop fs [] s = s"
| "load_themes_loop fs (dir # rest) s =
     (let s1 = s\<lparr> stat_calls := stat_calls s + 1 \<rparr>
      in case map_of (fs_dirs fs) dir of
           None \<Rightarrow>
             load_themes_loop fs rest
               (s1\<lparr> dir_mtimes := dir_mtimes s1 @ [\<lparr> mdir = dir, mmtime = 0, mcache = None \<rparr>] \<rparr>)
         | Some t \<Rightarrow>
             (let cache = map_of (fs_icon_caches fs) dir;
                  s2 = s1\<lparr> dir_mtimes :=
                              dir_mtimes s1 @ [\<lparr> mdir = dir, mmtime = t, mcache = cache \<rparr>] \<rparr>
              in if cache \<noteq> None then load_themes_loop fs rest s2
                 else (case map_of (fs_dir_entries fs) dir of
                         None \<Rightarrow> load_themes_loop fs rest s2
                       | Some files \<Rightarrow>
                           (let r = load_unthemed_loop dir files (unthemed_icons s2, all_icons s2)
                            in load_themes_loop fs rest
                                 (s2\<lparr> unthemed_icons := fst r, all_icons := snd r \<rparr>)))))"

text \<open>\<^verbatim>\<open>load_themes\<close> (lines 1233-1356); \<open>now\<close> is what \<^verbatim>\<open>g_get_current_time\<close> reads.\<close>

definition load_themes :: "file_system \<Rightarrow> int \<Rightarrow> GtkIconTheme \<Rightarrow> GtkIconTheme" where
  "load_themes fs now s =
     (let s0 = s\<lparr> all_icons := [] \<rparr>;
          s1 = (case current_theme s0 of
                  Some t \<Rightarrow> insert_theme fs t s0
                | None \<Rightarrow> s0);
          s2 = insert_theme fs ''gnome'' s1;
          s3 = insert_theme fs DEFAULT_THEME_NAME s2;
          s4 = s3\<lparr> themes := rev (themes s3) \<rparr>;
          s5 = load_themes_loop fs (search_path s4) (s4\<lparr> unthemed_icons := [] \<rparr>)
      in s5\<lparr> themes_valid := True, last_stat_time := now \<rparr>)"

subsection \<open>ThemeRegistry: staleness and invalidation\<close>

text \<open>
  \<^verbatim>\<open>_gtk_icon_theme_ensure_builtin_cache\<close> (lines 1358-1388): on its first call it appends
  five Threshold directories, backed by the compiled-in cache, to \<^verbatim>\<open>builtin_dirs\<close>.
\<close>

definition builtin_dir :: "globals \<Rightarrow> int \<Rightarrow> string \<Rightarrow> IconThemeDir" where
  "builtin_dir g sz subdir =
     \<lparr> dtype = ICON_THEME_DIR_THRESHOLD, dsize = sz, dmin_size = sz, dmax_size = sz,
       dthreshold = 2, dscale = 1, ddir = None, dsubdir = subdir,
       dcache = Some (case map_of (builtin_icons g) subdir of None \<Rightarrow> [] | Some tab \<Rightarrow> tab),
       dicons = [] \<rparr>"

definition ensure_builtin_cache :: "globals \<Rightarrow> globals" where
  "ensure_builtin_cache g =
     (if \<not> initialized g
      then g\<lparr> initialized := True,
              builtin_dirs := builtin_dirs g @
                [builtin_dir g 16 ''16'', builtin_dir g 20 ''20'', builtin_dir g 24 ''24'',
                 builtin_dir g 32 ''32'', builtin_dir g 48 ''48''] \<rparr>
      else g)"

text \<open>
  The \<^verbatim>\<open>for\<close> loop of \<^verbatim>\<open>rescan_themes\<close> (lines 2534-2551): whether it returns TRUE, and
  the number of \<^verbatim>\<open>g_stat\<close> calls it makes.
\<close>

fun rescan_themes_loop :: "file_system \<Rightarrow> IconThemeDirMtime list \<Rightarrow> nat \<Rightarrow> bool \<times> nat" where
  "rescan_themes_loop fs [] n = (False, n)"
| "rescan_themes_loop fs (dir_mtime # d) n =
     (case map_of (fs_dirs fs) (mdir dir_mtime) of
        Some st_mtime \<Rightarrow>
          if mmtime dir_mtime = st_mtime then rescan_themes_loop fs d (Suc n)
          else (True, Suc n)
      | None \<Rightarrow>
          if mmtime dir_mtime = 0 then rescan_themes_loop fs d (Suc n)
          else (True, Suc n))"

text \<open>\<^verbatim>\<open>rescan_themes\<close> (lines 2522-2557).\<close>

definition rescan_themes :: "file_system \<Rightarrow> int \<Rightarrow> GtkIconTheme \<Rightarrow> bool \<times> GtkIconTheme" where
  "rescan_themes fs now s =
     (let r = rescan_themes_loop fs (dir_mtimes s) 0;
          s1 = s\<lparr> stat_calls := stat_calls s + snd r \<rparr>
      in if fst r then (True, s1) else (False, s1\<lparr> last_stat_time := now \<rparr>))"

text \<open>
  \<^verbatim>\<open>queue_theme_changed\<close> (lines 798-810), the idle callback \<^verbatim>\<open>theme_changed_idle\<close> (lines
  779-796) that emits the signal, \<^verbatim>\<open>blow_themes\<close> (lines 830-847) and
  \<^verbatim>\<open>do_theme_change\<close> (lines 812-828).
\<close>

definition queue_theme_changed :: "GtkIconTheme \<Rightarrow> GtkIconTheme" where
  "queue_theme_changed s =
     (if \<not> theme_changed_idle s then s\<lparr> theme_changed_idle := True \<rparr> else s)"

definition theme_changed_idle_callback :: "GtkIconTheme \<Rightarrow> GtkIconTheme" where
  "theme_changed_idle_callback s =
     s\<lparr> changed_emitted := changed_emitted s + 1, theme_changed_idle := False \<rparr>"

definition blow_themes :: "GtkIconTheme \<Rightarrow> GtkIconTheme" where
  "blow_themes s =
     s\<lparr> themes := [], unthemed_icons := [], dir_mtimes := [], all_icons := [],
        themes_valid := False \<rparr>"

definition do_theme_change :: "GtkIconTheme \<Rightarrow> GtkIconTheme" where
  "do_theme_change s =
     (let s1 = g_hash_table_remove_all s
      in if \<not> themes_valid s1 then s1 else queue_theme_changed (blow_themes s1))"

text \<open>\<^verbatim>\<open>ensure_valid_themes\<close> (lines 1390-1424), on the process-wide state and the theme.\<close>

definition ensure_valid_themes ::
  "file_system \<Rightarrow> int \<Rightarrow> globals \<times> GtkIconTheme \<Rightarrow> globals \<times> GtkIconTheme" where
  "ensure_valid_themes fs now gs =
     (let was_valid = themes_valid (snd gs)
      in if loading_themes (snd gs) then gs
         else
           (let s1 = (snd gs)\<lparr> loading_themes := True \<rparr>;
                g1 = ensure_builtin_cache (fst gs);
                s2 = (if themes_valid s1
                      then (if \<bar>now - last_stat_time s1\<bar> > 5
                            then (let r = rescan_themes fs now s1
                                  in if fst r
                                     then blow_themes (g_hash_table_remove_all (snd r))
                                     else snd r)
                            else s1)
                      else s1);
                s3 = (if \<not> themes_valid s2
                      then (let s' = load_themes fs now s2
                            in if was_valid then queue_theme_changed s' else s')
                      else s2)
            in (g1, s3\<lparr> loading_themes := False \<rparr>)))"

subsection \<open>IconInfoCache: \<^verbatim>\<open>choose_icon\<close>\<close>

text \<open>
  The search loops of \<^verbatim>\<open>choose_icon\<close>. Each returns what the code holds at the label
  \<^verbatim>\<open>out\<close>: the new icon info with the theme and the icon name it was found under.
  \<^item> \<open>choose_icon_symbolic\<close>: the loop of lines 1653-1660, the first name against every
    theme;
  \<^item> \<open>choose_icon_names\<close>: the inner loop of lines 1667-1673, every name against one
    theme;
  \<^item> \<open>choose_icon_themes\<close>: the outer loop of lines 1663-1674.
\<close>

fun choose_icon_symbolic ::
  "globals \<Rightarrow> IconTheme list \<Rightarrow> string \<Rightarrow> int \<Rightarrow> int \<Rightarrow> bool \<Rightarrow> bool
     \<Rightarrow> error + (GtkIconInfo \<times> IconTheme \<times> string) option" where
  "choose_icon_symbolic g [] icon_name sz scale allow_svg use_builtin = Inr None"
| "choose_icon_symbolic g (theme # l) icon_name sz scale allow_svg use_builtin =
     (case theme_lookup_icon g theme icon_name sz scale allow_svg use_builtin of
        Inl e \<Rightarrow> Inl e
      | Inr (Some icon_info) \<Rightarrow> Inr (Some (icon_info, theme, icon_name))
      | Inr None \<Rightarrow> choose_icon_symbolic g l icon_name sz scale allow_svg use_builtin)"

fun choose_icon_names ::
  "globals \<Rightarrow> IconTheme \<Rightarrow> string list \<Rightarrow> int \<Rightarrow> int \<Rightarrow> bool \<Rightarrow> bool
     \<Rightarrow> error + (GtkIconInfo \<times> IconTheme \<times> string) option" where
  "choose_icon_names g theme [] sz scale allow_svg use_builtin = Inr None"
| "choose_icon_names g theme (icon_name # names) sz scale allow_svg use_builtin =
     (case theme_lookup_icon g theme icon_name sz scale allow_svg use_builtin of
        Inl e \<Rightarrow> Inl e
      | Inr (Some icon_info) \<Rightarrow> Inr (Some (icon_info, theme, icon_name))
      | Inr None \<Rightarrow> choose_icon_names g theme names sz scale allow_svg use_builtin)"

fun choose_icon_themes ::
  "globals \<Rightarrow> IconTheme list \<Rightarrow> string list \<Rightarrow> int \<Rightarrow> int \<Rightarrow> bool \<Rightarrow> bool
     \<Rightarrow> error + (GtkIconInfo \<times> IconTheme \<times> string) option" where
  "choose_icon_themes g [] names sz scale allow_svg use_builtin = Inr None"
| "choose_icon_themes g (theme # l) names sz scale allow_svg use_builtin =
     (case choose_icon_names g theme names sz scale allow_svg use_builtin of
        Inl e \<Rightarrow> Inl e
      | Inr (Some found) \<Rightarrow> Inr (Some found)
      | Inr None \<Rightarrow> choose_icon_themes g l names sz scale allow_svg use_builtin)"

text \<open>
  Lines 1645-1674: the symbolic pass, taken when the first name ends in
  \<^verbatim>\<open>-symbolic\<close>, then the pass over all themes and names.
\<close>

definition choose_icon_search ::
  "globals \<Rightarrow> IconTheme list \<Rightarrow> string list \<Rightarrow> int \<Rightarrow> int \<Rightarrow> bool \<Rightarrow> bool
     \<Rightarrow> error + (GtkIconInfo \<times> IconTheme \<times> string) option" where
  "choose_icon_search g ts names sz scale allow_svg use_builtin =
     (case (case names of
              icon_name # _ \<Rightarrow>
                if g_str_has_suffix icon_name ''-symbolic''
                then choose_icon_symbolic g ts icon_name sz scale allow_svg use_builtin
                else Inr None
            | [] \<Rightarrow> Inr None) of
        Inl e \<Rightarrow> Inl e
      | Inr (Some found) \<Rightarrow> Inr (Some found)
      | Inr None \<Rightarrow> choose_icon_themes g ts names sz scale allow_svg use_builtin)"

text \<open>
  Lines 1678-1683 and 1709-1725: the first name with an entry in \<^verbatim>\<open>unthemed_icons\<close>,
  and the icon info made from it.
\<close>

fun choose_icon_unthemed ::
  "(string \<times> UnthemedIcon) list \<Rightarrow> string list \<Rightarrow> UnthemedIcon option" where
  "choose_icon_unthemed unthemed [] = None"
| "choose_icon_unthemed unthemed (icon_name # names) =
     (case map_of unthemed icon_name of
        Some unthemed_icon \<Rightarrow> Some unthemed_icon
      | None \<Rightarrow> choose_icon_unthemed unthemed names)"

definition unthemed_icon_info :: "UnthemedIcon \<Rightarrow> int \<Rightarrow> bool \<Rightarrow> GtkIconInfo" where
  "unthemed_icon_info unthemed_icon sz allow_svg =
     (let icon_info = icon_info_new ICON_THEME_DIR_UNTHEMED sz 1
      in if allow_svg \<and> svg_filename unthemed_icon \<noteq> None \<and>
            (case no_svg_filename unthemed_icon of
               None \<Rightarrow> True
             | Some f \<Rightarrow> suffix_from_name f \<noteq> ICON_SUFFIX_PNG)
         then icon_info\<lparr> filename := svg_filename unthemed_icon \<rparr>
         else if no_svg_filename unthemed_icon \<noteq> None
         then icon_info\<lparr> filename := no_svg_filename unthemed_icon \<rparr>
         else icon_info)"

text \<open>Lines 1636-1641: whether SVG files may be chosen.\<close>

definition choose_icon_allow_svg :: "GtkIconTheme \<Rightarrow> GtkIconLookupFlags \<Rightarrow> bool" where
  "choose_icon_allow_svg s flags =
     (if flags AND GTK_ICON_LOOKUP_NO_SVG \<noteq> 0 then False
      else if flags AND GTK_ICON_LOOKUP_FORCE_SVG \<noteq> 0 then True
      else pixbuf_supports_svg s)"

text \<open>
  \<^verbatim>\<open>g_hash_table_insert\<close> of a new object \<open>p\<close> under its own key: an entry with an equal
  key has its value replaced (and destroyed), otherwise the entry is added.
\<close>

definition g_hash_table_insert :: "nat \<Rightarrow> IconInfoKey \<Rightarrow> GtkIconTheme \<Rightarrow> GtkIconTheme" where
  "g_hash_table_insert p k s =
     (case g_hash_table_lookup s k of
        None \<Rightarrow> s\<lparr> info_cache := info_cache s @ [p] \<rparr>
      | Some old \<Rightarrow>
          icon_info_uncached old
            (s\<lparr> info_cache := map (\<lambda>q. if q = old then p else q) (info_cache s) \<rparr>))"

text \<open>
  \<^verbatim>\<open>choose_icon\<close> (lines 1593-1794). The result is the address of the icon info returned
  (NULL is \<open>None\<close>) with the states after the call. The second lookup at scale 1 (line
  1740) only feeds \<^verbatim>\<open>unscaled_scale\<close>, a field of the rendering pipeline; it is kept because
  it can abort. The one-time warning about a missing default theme leaves no trace in the
  state.
\<close>

definition choose_icon ::
  "file_system \<Rightarrow> int \<Rightarrow> globals \<times> GtkIconTheme \<Rightarrow> string list \<Rightarrow> int \<Rightarrow> int \<Rightarrow> GtkIconLookupFlags
     \<Rightarrow> error + (nat option \<times> globals \<times> GtkIconTheme)" where
  "choose_icon fs now gs names sz scale flags =
     (let gs1 = ensure_valid_themes fs now gs;
          g = fst gs1;
          s = snd gs1;
          k = \<lparr> icon_names = names, ksize = sz, kscale = scale, kflags = flags \<rparr>
      in case g_hash_table_lookup s k of
           Some icon_info \<Rightarrow>
             Inr (Some icon_info, g, remove_from_lru_cache icon_info (g_object_ref icon_info s))
         | None \<Rightarrow>
             (let allow_svg = choose_icon_allow_svg s flags;
                  use_builtin = (flags AND GTK_ICON_LOOKUP_USE_BUILTIN \<noteq> 0)
              in case choose_icon_search g (themes s) names sz scale allow_svg use_builtin of
                   Inl e \<Rightarrow> Inl e
                 | Inr found \<Rightarrow>
                     (case (case found of
                              Some (icon_info, theme, icon_name) \<Rightarrow> Some (icon_info, Some (theme, icon_name))
                            | None \<Rightarrow>
                                (case choose_icon_unthemed (unthemed_icons s) names of
                                   Some unthemed_icon \<Rightarrow>
                                     Some (unthemed_icon_info unthemed_icon sz allow_svg, None)
                                 | None \<Rightarrow> None)) of
                        None \<Rightarrow> Inr (None, g, s)
                      | Some (icon_info, origin) \<Rightarrow>
                          (let forced = (flags AND GTK_ICON_LOOKUP_FORCE_SIZE \<noteq> 0);
                               icon_info1 = icon_info\<lparr> desired_size := sz, desired_scale := scale,
                                                       forced_size := forced, key := k,
                                                       in_cache := True \<rparr>;
                               p = next_info s;
                               s1 = s\<lparr> icon_infos := (icon_infos s)(p \<mapsto> icon_info1),
                                       next_info := Suc p \<rparr>
                           in case (case origin of
                                      Some (theme, icon_name) \<Rightarrow>
                                        if scale \<noteq> 1 \<and> \<not> forced
                                        then theme_lookup_icon g theme icon_name sz 1 allow_svg use_builtin
                                        else Inr None
                                    | None \<Rightarrow> Inr None) of
                                Inl e \<Rightarrow> Inl e
                              | Inr _ \<Rightarrow> Inr (Some p, g, g_hash_table_insert p k s1)))))"

section \<open>Notions of the specification\<close>

text \<open>
  A directory takes part in the scan of \<^verbatim>\<open>theme_lookup_icon\<close> for an icon name when the
  test of line 2837 succeeds.
\<close>

definition has_icon :: "string \<Rightarrow> bool \<Rightarrow> IconThemeDir \<Rightarrow> bool" where
  "has_icon icon_name allow_svg dir =
     (best_suffix (theme_dir_get_icon_suffix dir icon_name) allow_svg \<noteq> ICON_SUFFIX_NONE)"



text \<open>
  The default theme can be inserted: no descriptor is found for it on the search path (a
  placeholder is created), or the descriptor found lists \<^verbatim>\<open>Directories\<close>.
\<close>

definition default_theme_loadable :: "file_system \<Rightarrow> string list \<Rightarrow> bool" where
  "default_theme_loadable fs path =
     (case find_theme_file fs path DEFAULT_THEME_NAME of
        None \<Rightarrow> True
      | Some theme_file \<Rightarrow> kf_directories theme_file \<noteq> None)"

text \<open>
  A tracked directory has changed when what \<^verbatim>\<open>g_stat\<close> reports now (the modification time
  of a directory, 0 when the path does not exist or is no directory) differs from the
  recorded \<^verbatim>\<open>mtime\<close> (where 0 stands for "not existing").
\<close>

definition dir_changed :: "file_system \<Rightarrow> IconThemeDirMtime \<Rightarrow> bool" where
  "dir_changed fs dir_mtime =
     ((case map_of (fs_dirs fs) (mdir dir_mtime) of Some t \<Rightarrow> t | None \<Rightarrow> 0) \<noteq> mmtime dir_mtime)"

text \<open>
  The fields that loading the themes leaves alone (\<open>cache_part\<close>), and the fields that the
  caches and reference counts leave alone (\<open>registry_part\<close>).
\<close>

definition cache_part ::
  "GtkIconTheme \<Rightarrow> nat list \<times> nat list \<times> (nat \<Rightarrow> GtkIconInfo option) \<times> nat \<times> bool \<times> nat \<times> bool
     \<times> string option \<times> string list \<times> bool" where
  "cache_part s =
     (info_cache s, info_cache_lru s, icon_infos s, next_info s, theme_changed_idle s,
      changed_emitted s, loading_themes s, current_theme s, search_path s, pixbuf_supports_svg s)"

definition registry_part ::
  "GtkIconTheme \<Rightarrow> (string option \<times> string list \<times> bool) \<times> (bool \<times> bool \<times> IconTheme list) \<times>
     ((string \<times> UnthemedIcon) list \<times> string list \<times> int) \<times>
     (IconThemeDirMtime list \<times> bool \<times> nat \<times> nat)" where
  "registry_part s =
     ((current_theme s, search_path s, pixbuf_supports_svg s),
      (themes_valid s, loading_themes s, themes s),
      (unthemed_icons s, all_icons s, last_stat_time s),
      (dir_mtimes s, theme_changed_idle s, changed_emitted s, stat_calls s))"

text \<open>The state a reload starts from after an invalidation: every table is empty.\<close>

definition torn_down :: "GtkIconTheme \<Rightarrow> bool" where
  "torn_down s =
     (info_cache s = [] \<and> themes s = [] \<and> unthemed_icons s = [] \<and> dir_mtimes s = [] \<and>
      all_icons s = [] \<and> \<not> themes_valid s)"

text \<open>
  The bound on the LRU side list, together with the absence of duplicates; and the
  relation between a list and what is left of it after entries were taken out.
\<close>

definition lru_bounded :: "GtkIconTheme \<Rightarrow> bool" where
  "lru_bounded s =
     (length (info_cache_lru s) \<le> INFO_CACHE_LRU_SIZE \<and> distinct (info_cache_lru s))"

definition lru_shrinks :: "nat list \<Rightarrow> nat list \<Rightarrow> bool" where
  "lru_shrinks old new =
     (length new \<le> length old \<and> set new \<subseteq> set old \<and> (distinct old \<longrightarrow> distinct new))"

text \<open>
  The tracked directories of a registry are fresh when none of them has changed; an
  address is detached when no object lives there or the object is in no cache.
\<close>

definition dirs_fresh :: "file_system \<Rightarrow> GtkIconTheme \<Rightarrow> bool" where
  "dirs_fresh fs s = (\<forall>dm \<in> set (dir_mtimes s). \<not> dir_changed fs dm)"

definition detached :: "GtkIconTheme \<Rightarrow> nat \<Rightarrow> bool" where
  "detached s p = (case icon_infos s p of None \<Rightarrow> True | Some i \<Rightarrow> \<not> in_cache i)"

section \<open>Example data\<close>

text \<open>Directories, themes and keys used to evaluate the definitions at concrete inputs.\<close>

definition example_dir :: "IconThemeDirType \<Rightarrow> int \<Rightarrow> int \<Rightarrow> string \<Rightarrow> IconSuffix \<Rightarrow> IconThemeDir" where
  "example_dir type' sz scale path suffix =
     \<lparr> dtype = type', dsize = sz, dmin_size = sz, dmax_size = sz, dthreshold = 2,
       dscale = scale, ddir = Some path, dsubdir = path, dcache = None,
       dicons = [(''edit-cut'', suffix)] \<rparr>"

definition example_scalable :: IconThemeDir where
  "example_scalable =
     (example_dir ICON_THEME_DIR_SCALABLE 16 1 ''scalable'' ICON_SUFFIX_SVG)
       \<lparr> dmin_size := 16, dmax_size := 32 \<rparr>"

definition example_key :: "string list \<Rightarrow> IconInfoKey" where
  "example_key names = \<lparr> icon_names = names, ksize = 16, kscale = 1, kflags = 0 \<rparr>"

definition example_globals :: globals where
  "example_globals =
     \<lparr> icon_theme_builtin_icons = None, builtin_dirs = [], initialized = False,
       builtin_icons = [] \<rparr>"

text \<open>The state \<^verbatim>\<open>gtk_icon_theme_init\<close> leaves, on a search path of one element.\<close>

definition example_state :: GtkIconTheme where
  "example_state =
     \<lparr> info_cache = [], info_cache_lru = [], current_theme = None, search_path = [''/icons''],
       pixbuf_supports_svg = True, themes_valid = False, loading_themes = False, themes = [],
       unthemed_icons = [], all_icons = [], last_stat_time = 0, dir_mtimes = [],
       theme_changed_idle = False, icon_infos = (\<lambda>p. None), next_info = 0,
       changed_emitted = 0, stat_calls = 0 \<rparr>"

definition example_theme :: "string \<Rightarrow> IconThemeDir list \<Rightarrow> IconTheme" where
  "example_theme name dirs =
     \<lparr> tname = name, tdisplay_name = None, tcomment = None, texample = None, tdirs = dirs \<rparr>"

text \<open>
  A current theme that holds \<^verbatim>\<open>edit-cut\<close> as a PNG only, and a parent theme that holds
  \<^verbatim>\<open>edit-cut-symbolic\<close> as an SVG.
\<close>

definition example_foo :: IconTheme where
  "example_foo =
     example_theme ''Foo'' [example_dir ICON_THEME_DIR_FIXED 16 1 ''Foo/16x16'' ICON_SUFFIX_PNG]"


text \<open>
  A file system with one search path element \<^verbatim>\<open>/icons\<close> that holds a descriptor for the
  theme \<^verbatim>\<open>gnome\<close> and none for \<^verbatim>\<open>hicolor\<close>.
\<close>

definition example_gnome_file :: key_file where
  "example_gnome_file =
     \<lparr> kf_name = Some ''GNOME'', kf_comment = None, kf_example = None, kf_directories = Some [],
       kf_scaled_directories = None, kf_inherits = None, kf_groups = [] \<rparr>"

definition example_fs :: file_system where
  "example_fs =
     \<lparr> fs_dirs = [(''/icons'', 100), (''/icons/gnome'', 100)],
       fs_index_theme = [(''/icons/gnome/index.theme'', Some example_gnome_file)],
       fs_dir_entries = [], fs_icon_caches = [] \<rparr>"

text \<open>A loaded registry that recorded the search path element at modification time 50.\<close>

definition example_valid_state :: GtkIconTheme where
  "example_valid_state =
     example_state\<lparr> themes_valid := True, last_stat_time := 0,
                    dir_mtimes := [\<lparr> mdir = ''/icons'', mmtime = 50, mcache = None \<rparr>] \<rparr>"

text \<open>
  A file system in which the theme \<^verbatim>\<open>gnome\<close> has one subdirectory that holds a PNG, with
  a stray SVG beside the themes; and a loaded registry that predates it: its theme list,
  tables and primary cache are not empty, and it recorded the search path element at
  modification time 50.
\<close>

definition example_fs_icons :: file_system where
  "example_fs_icons =
     \<lparr> fs_dirs = [(''/icons'', 100), (''/icons/gnome'', 100), (''/icons/gnome/16x16'', 100)],
       fs_index_theme =
         [(''/icons/gnome/index.theme'',
           Some (example_gnome_file
                   \<lparr> kf_directories := Some [''16x16''],
                     kf_groups := [(''16x16'',
                        \<lparr> g_size = Some 16, g_type = Some ''Fixed'', g_max_size = None,
                          g_min_size = None, g_threshold = None, g_scale = None \<rparr>)] \<rparr>))],
       fs_dir_entries = [(''/icons/gnome/16x16'', [''edit-paste.png'']),
                         (''/icons'', [''stray.svg''])],
       fs_icon_caches = [] \<rparr>"

definition example_loaded_state :: GtkIconTheme where
  "example_loaded_state =
     example_state
       \<lparr> info_cache := [0], themes_valid := True, themes := [example_foo],
         unthemed_icons := [(''old'', \<lparr> svg_filename = None,
                                        no_svg_filename = Some ''/icons/old.png'' \<rparr>)],
         all_icons := [''edit-cut'', ''old''], last_stat_time := 0,
         dir_mtimes := [\<lparr> mdir = ''/icons'', mmtime = 50, mcache = None \<rparr>,
                        \<lparr> mdir = ''/icons/Foo'', mmtime = 50, mcache = None \<rparr>],
         icon_infos := (\<lambda>p. if p = 0
                             then Some ((icon_info_new ICON_THEME_DIR_FIXED 16 1)
                                          \<lparr> key := example_key [''edit-cut''], in_cache := True \<rparr>)
                             else None),
         next_info := 1 \<rparr>"

text \<open>
  A state whose LRU side list is full: 32 parked icon infos, each held by the list only;
  the addresses 33 to 40 hold icon infos that are not parked.
\<close>

definition example_parked :: GtkIconTheme where
  "example_parked =
     example_state
       \<lparr> info_cache_lru := [1, 2, 3, 4, 5, 6, 7, 8, 9, 10, 11, 12, 13, 14, 15, 16, 17, 18, 19, 20, 21, 22, 23, 24, 25, 26, 27, 28, 29, 30, 31, 32],
         icon_infos := (\<lambda>p. if 1 \<le> p \<and> p \<le> 40
                             then Some (icon_info_new ICON_THEME_DIR_FIXED 16 1) else None) \<rparr>"

text \<open>
  A valid registry with the theme \<^verbatim>\<open>Foo\<close> whose primary cache holds one icon info, for the
  request \<^verbatim>\<open>edit-cut\<close> at size 16, parked in the LRU side list; and the same registry with
  that icon info handed out: it is not parked, and the proxy pixbuf holds its reference.
\<close>

definition example_cached :: GtkIconTheme where
  "example_cached =
     example_state
       \<lparr> info_cache := [7], info_cache_lru := [7], themes_valid := True, themes := [example_foo],
         last_stat_time := 0,
         dir_mtimes := [\<lparr> mdir = ''/icons'', mmtime = 100, mcache = None \<rparr>],
         icon_infos := (\<lambda>p. if p = 7
                             then Some ((icon_info_new ICON_THEME_DIR_FIXED 16 1)
                                          \<lparr> key := example_key [''edit-cut''], in_cache := True \<rparr>)
                             else None),
         next_info := 8 \<rparr>"

definition example_handed_out :: GtkIconTheme where
  "example_handed_out =
     example_cached
       \<lparr> info_cache_lru := [],
         icon_infos := (\<lambda>p. if p = 7
                             then Some ((icon_info_new ICON_THEME_DIR_FIXED 16 1)
                                          \<lparr> key := example_key [''edit-cut''], in_cache := True,
                                            proxy_pixbuf := True \<rparr>)
                             else None) \<rparr>"

lemmas example_simps =
  example_dir_def example_theme_def example_key_def example_globals_def
  theme_dir_get_icon_suffix_def table_lookup_def best_suffix_def has_icon_def
  ICON_SUFFIX_PNG_def ICON_SUFFIX_NONE_def ICON_SUFFIX_SVG_def ICON_SUFFIX_XPM_def
  theme_dir_size_difference_def compare_dir_matches_def

section \<open>DirectoryMatcher: theorems\<close>

lemma size_difference_Inr:
  "dtype a \<noteq> ICON_THEME_DIR_UNTHEMED \<Longrightarrow> \<exists>da. theme_dir_size_difference a sz scale = Inr da"
  by (cases "dtype a") (simp_all add: theme_dir_size_difference_def Let_def)

lemma size_difference_nonneg:
  assumes "0 \<le> sz" "1 \<le> scale" "theme_dir_size_difference d sz scale = Inr da"
  shows "0 \<le> da"
proof -
  have "sz * 1 \<le> sz * scale" using assms(1,2) by (intro mult_left_mono) auto
  then have "sz \<le> sz * scale" by simp
  then show ?thesis
    using assms(3)
    by (auto simp: theme_dir_size_difference_def Let_def split: IconThemeDirType.splits if_splits)
qed

text \<open>
  C1. The claim: for a Scalable directory the distance is 0 exactly when \<open>size * scale\<close>
  lies within \<open>[min_size * dir_scale, max_size * dir_scale]\<close>, both bounds being compared
  with the scaled size. The code compares the upper bound with the unscaled \<open>size\<close> (line
  2633): for the Scalable directory 16..32 at scale 1 and the request of size 20 at scale
  2, the scaled size 40 exceeds the maximum 32 by 8, and the code returns 0.
\<close>

theorem scalable_upper_bound_uses_unscaled_size:
  "theme_dir_size_difference example_scalable 20 2 = Inr 0 \<and>
   dmax_size example_scalable * dscale example_scalable < 20 * 2 \<and>
   dtype example_scalable = ICON_THEME_DIR_SCALABLE"
  by (simp add: theme_dir_size_difference_def example_scalable_def example_dir_def)


lemma fixed_exact_wins:
  assumes "dtype F \<noteq> ICON_THEME_DIR_SCALABLE" "dscale F = scale" "dsize F = sz"
  shows "compare_dir_matches F 0 b db sz scale"
  using assms by (auto simp: compare_dir_matches_def)

lemma beats_exact_same_scale:
  assumes "0 \<le> da" "1 \<le> scale"
    and "dtype b \<noteq> ICON_THEME_DIR_SCALABLE" "dscale b = scale" "dsize b = sz"
    and "compare_dir_matches a da b 0 sz scale"
  shows "da = 0 \<and> dtype a \<noteq> ICON_THEME_DIR_SCALABLE \<and> dscale a = scale \<and> dsize a = sz"
proof -
  from assms have 1: "da = 0" and 2: "dtype a \<noteq> ICON_THEME_DIR_SCALABLE" and 3: "dscale a = scale"
    by (auto simp: compare_dir_matches_def split: if_splits)
  from assms 1 2 3 have "sz * scale = dsize a * scale"
    by (auto simp: compare_dir_matches_def split: if_splits)
  with assms(2) have "dsize a = sz" by simp
  with 1 2 3 show ?thesis by simp
qed

lemma loop_keeps_exact_same_scale:
  assumes "0 \<le> sz" "1 \<le> scale"
    and "\<forall>d \<in> set ys. dtype d \<noteq> ICON_THEME_DIR_UNTHEMED"
    and "dtype b \<noteq> ICON_THEME_DIR_SCALABLE" "dscale b = scale" "dsize b = sz"
  shows "\<exists>d. theme_lookup_icon_loop n sz scale allow ys (Some b) 0 = Inr (Some d, 0) \<and>
          (d = b \<or> d \<in> set ys \<and> has_icon n allow d \<and> theme_dir_size_difference d sz scale = Inr 0) \<and>
          dtype d \<noteq> ICON_THEME_DIR_SCALABLE \<and> dscale d = scale \<and> dsize d = sz"
  using assms(3-)
proof (induction ys arbitrary: b)
  case Nil
  then show ?case by simp
next
  case (Cons a ys)
  show ?case
  proof (cases "has_icon n allow a")
    case False
    with Cons.IH[of b] Cons.prems show ?thesis by (auto simp: has_icon_def)
  next
    case True
    from Cons.prems obtain da where da: "theme_dir_size_difference a sz scale = Inr da"
      using size_difference_Inr[of a sz scale] by auto
    have nn: "0 \<le> da" using size_difference_nonneg[OF assms(1,2) da] .
    show ?thesis
    proof (cases "compare_dir_matches a da b 0 sz scale")
      case c: True
      from beats_exact_same_scale[OF nn assms(2) Cons.prems(2,3,4) c]
      have p: "da = 0" "dtype a \<noteq> ICON_THEME_DIR_SCALABLE" "dscale a = scale" "dsize a = sz" by auto
      from Cons.IH[of a] Cons.prems(1) p
      obtain d where "theme_lookup_icon_loop n sz scale allow ys (Some a) 0 = Inr (Some d, 0)"
          "(d = a \<or> d \<in> set ys \<and> has_icon n allow d \<and> theme_dir_size_difference d sz scale = Inr 0)"
          "dtype d \<noteq> ICON_THEME_DIR_SCALABLE" "dscale d = scale" "dsize d = sz" by auto
      with True da c p show ?thesis by (auto simp: has_icon_def)
    next
      case c: False
      from Cons.IH[of b] Cons.prems
      obtain d where "theme_lookup_icon_loop n sz scale allow ys (Some b) 0 = Inr (Some d, 0)"
          "(d = b \<or> d \<in> set ys \<and> has_icon n allow d \<and> theme_dir_size_difference d sz scale = Inr 0)"
          "dtype d \<noteq> ICON_THEME_DIR_SCALABLE" "dscale d = scale" "dsize d = sz" by auto
      with True da c show ?thesis by (auto simp: has_icon_def)
    qed
  qed
qed

lemma loop_prefix:
  assumes "\<forall>d \<in> set xs. dtype d \<noteq> ICON_THEME_DIR_UNTHEMED"
  shows "\<exists>m md. theme_lookup_icon_loop n sz scale allow (xs @ rest) m0 md0 =
            theme_lookup_icon_loop n sz scale allow rest m md"
  using assms
proof (induction xs arbitrary: m0 md0)
  case Nil
  then show ?case by auto
next
  case (Cons a xs)
  from Cons.prems obtain da where da: "theme_dir_size_difference a sz scale = Inr da"
    using size_difference_Inr[of a sz scale] by auto
  from Cons.prems have "\<forall>d \<in> set xs. dtype d \<noteq> ICON_THEME_DIR_UNTHEMED" by simp
  note IH = Cons.IH[OF this]
  show ?case using da IH by (simp split: option.splits)
qed

text \<open>
  C2. The claim as stated fails: a Fixed directory at exactly \<open>size * scale\<close> loses to a
  Threshold directory that is also at distance 0 and carries the requested scale while
  the Fixed one does not (rule 4 applies among exact matches). Request: size 24 at scale 2;
  the Fixed directory 48 at scale 1 is scanned first, the Threshold directory 24 at scale 2
  second, and the scan ends on the Threshold directory.
\<close>

theorem exact_fixed_loses_to_exact_threshold_at_requested_scale:
  "dtype (example_dir ICON_THEME_DIR_FIXED 48 1 ''48x48'' ICON_SUFFIX_PNG) = ICON_THEME_DIR_FIXED \<and>
   theme_dir_size_difference (example_dir ICON_THEME_DIR_FIXED 48 1 ''48x48'' ICON_SUFFIX_PNG) 24 2
     = Inr 0 \<and>
   dtype (example_dir ICON_THEME_DIR_THRESHOLD 24 2 ''24x24@2'' ICON_SUFFIX_PNG)
     = ICON_THEME_DIR_THRESHOLD \<and>
   theme_lookup_icon_loop ''edit-cut'' 24 2 True
     [example_dir ICON_THEME_DIR_FIXED 48 1 ''48x48'' ICON_SUFFIX_PNG,
      example_dir ICON_THEME_DIR_THRESHOLD 24 2 ''24x24@2'' ICON_SUFFIX_PNG] None G_MAXINT =
   Inr (Some (example_dir ICON_THEME_DIR_THRESHOLD 24 2 ''24x24@2'' ICON_SUFFIX_PNG), 0)"
  by (simp add: example_simps)

text \<open>
  C2, amended. If the list scanned contains a Fixed directory \<open>F\<close> whose nominal size and
  scale are the requested ones (so its distance is 0), then, for a request with
  \<open>size \<ge> 0\<close> and \<open>scale \<ge> 1\<close> over directories of the three themed types, the scan ends
  on a directory at distance 0 that is not Scalable and has the requested nominal size
  and scale: it is \<open>F\<close> itself, or a directory scanned after \<open>F\<close> that ties with it on
  every rule and replaces it in the final \<open>\<le>\<close> comparison. No Scalable directory and no
  directory at a non-zero distance is selected, wherever \<open>F\<close> stands in the list.
\<close>

theorem exact_fixed_at_requested_scale_selected:
  assumes "0 \<le> sz" and "1 \<le> scale"
    and "\<forall>d \<in> set (xs @ F # ys). dtype d \<noteq> ICON_THEME_DIR_UNTHEMED"
    and "dtype F = ICON_THEME_DIR_FIXED" and "dsize F = sz" and "dscale F = scale"
    and "has_icon n allow F"
  shows "\<exists>d. theme_lookup_icon_loop n sz scale allow (xs @ F # ys) m0 md0 = Inr (Some d, 0) \<and>
           (d = F \<or> d \<in> set ys \<and> has_icon n allow d \<and> theme_dir_size_difference d sz scale = Inr 0) \<and>
           dtype d \<noteq> ICON_THEME_DIR_SCALABLE \<and> dscale d = scale \<and> dsize d = sz"
proof -
  from assms(3) have xs: "\<forall>d \<in> set xs. dtype d \<noteq> ICON_THEME_DIR_UNTHEMED"
    and ys: "\<forall>d \<in> set ys. dtype d \<noteq> ICON_THEME_DIR_UNTHEMED" by auto
  from loop_prefix[OF xs, of n sz scale allow "F # ys" m0 md0]
  obtain m md where pre: "theme_lookup_icon_loop n sz scale allow (xs @ F # ys) m0 md0 =
      theme_lookup_icon_loop n sz scale allow (F # ys) m md" by auto
  have dF: "theme_dir_size_difference F sz scale = Inr 0"
    using assms(4,5,6) by (simp add: theme_dir_size_difference_def)
  have ns: "dtype F \<noteq> ICON_THEME_DIR_SCALABLE" using assms(4) by simp
  have win: "(case m of None \<Rightarrow> True | Some b \<Rightarrow> compare_dir_matches F 0 b md sz scale)"
    using fixed_exact_wins[OF ns assms(6,5)] by (simp split: option.splits)
  have step: "theme_lookup_icon_loop n sz scale allow (F # ys) m md =
      theme_lookup_icon_loop n sz scale allow ys (Some F) 0"
    using assms(7) dF win by (simp add: has_icon_def)
  from loop_keeps_exact_same_scale[OF assms(1,2) ys ns assms(6,5), of n allow] pre step
  show ?thesis by simp
qed

theorem exact_fixed_at_requested_scale_selected_witness:
  "theme_lookup_icon_loop ''edit-cut'' 24 1 True
     [example_dir ICON_THEME_DIR_THRESHOLD 22 1 ''22x22'' ICON_SUFFIX_PNG,
      example_dir ICON_THEME_DIR_FIXED 24 1 ''24x24'' ICON_SUFFIX_PNG,
      example_dir ICON_THEME_DIR_SCALABLE 24 1 ''scalable'' ICON_SUFFIX_SVG] None G_MAXINT =
   Inr (Some (example_dir ICON_THEME_DIR_FIXED 24 1 ''24x24'' ICON_SUFFIX_PNG), 0)"
  using exact_fixed_at_requested_scale_selected[of 24 1
      "[example_dir ICON_THEME_DIR_THRESHOLD 22 1 ''22x22'' ICON_SUFFIX_PNG]"
      "example_dir ICON_THEME_DIR_FIXED 24 1 ''24x24'' ICON_SUFFIX_PNG"
      "[example_dir ICON_THEME_DIR_SCALABLE 24 1 ''scalable'' ICON_SUFFIX_SVG]"
      "''edit-cut''" True None G_MAXINT]
  by (auto simp: example_simps)


text \<open>
  Outside the amended statement: when the exact Fixed directory has a scale above the
  requested one, its nominal size lies below the requested size, and the branch for a
  non-exact \<open>dir_a\<close> (lines 2749-2751) prefers a larger non-exact directory to it without
  looking at \<open>difference_b\<close>. Request: size 48 at scale 1; the Fixed directory 24 at scale
  2 is exact, and the Threshold directory 64 scanned after it replaces it.
\<close>

lemma exact_running_best_replaced_by_larger_inexact:
  "theme_dir_size_difference (example_dir ICON_THEME_DIR_FIXED 24 2 ''24x24@2'' ICON_SUFFIX_PNG) 48 1
     = Inr 0 \<and>
   theme_lookup_icon_loop ''edit-cut'' 48 1 True
     [example_dir ICON_THEME_DIR_FIXED 24 2 ''24x24@2'' ICON_SUFFIX_PNG,
      example_dir ICON_THEME_DIR_THRESHOLD 64 1 ''64x64'' ICON_SUFFIX_PNG] None G_MAXINT =
   Inr (Some (example_dir ICON_THEME_DIR_THRESHOLD 64 1 ''64x64'' ICON_SUFFIX_PNG), 14)"
  by (simp add: example_simps)

text \<open>
  C3. The claim as stated fails: of two directories that tie on every rule, the one
  scanned later ends as the match. Two Fixed directories of size 16 at scale 1, requested
  size 16 at scale 1: the scan ends on the second.
\<close>

theorem tie_kept_by_later_directory:
  "example_dir ICON_THEME_DIR_FIXED 16 1 ''first/16x16'' ICON_SUFFIX_PNG \<noteq>
   example_dir ICON_THEME_DIR_FIXED 16 1 ''second/16x16'' ICON_SUFFIX_PNG \<and>
   theme_lookup_icon_loop ''edit-cut'' 16 1 True
     [example_dir ICON_THEME_DIR_FIXED 16 1 ''first/16x16'' ICON_SUFFIX_PNG,
      example_dir ICON_THEME_DIR_FIXED 16 1 ''second/16x16'' ICON_SUFFIX_PNG] None G_MAXINT =
   Inr (Some (example_dir ICON_THEME_DIR_FIXED 16 1 ''second/16x16'' ICON_SUFFIX_PNG), 0)"
  by (simp add: example_simps)

text \<open>
  C3, amended. For a running best \<open>b\<close> (with its distance \<open>db\<close>) and the next directory
  \<open>a\<close> of the scan that holds the icon, if the two tie on all earlier rules (same
  distance, hence same exactness; same side of the requested size; same agreement with
  the requested scale; both Scalable or both not) and have equal
  \<open>|requested_size * requested_scale - size * scale|\<close>, then \<^const>\<open>compare_dir_matches\<close>
  answers TRUE for \<open>a\<close>: the directory seen later replaces the running best, and the scan
  goes on with it (it is the final match when no directory follows).
\<close>

theorem final_tiebreak_later_directory_wins:
  assumes "has_icon n allow a"
    and "theme_dir_size_difference a s sc = Inr da"
    and "da = db"
    and "(s \<le> dsize a) = (s \<le> dsize b)"
    and "(dscale a = sc) = (dscale b = sc)"
    and "(dtype a = ICON_THEME_DIR_SCALABLE) = (dtype b = ICON_THEME_DIR_SCALABLE)"
    and "\<bar>s * sc - dsize a * dscale a\<bar> = \<bar>s * sc - dsize b * dscale b\<bar>"
  shows "compare_dir_matches a da b db s sc \<and>
         theme_lookup_icon_loop n s sc allow (a # l) (Some b) db =
         theme_lookup_icon_loop n s sc allow l (Some a) da"
proof -
  have c: "compare_dir_matches a da b db s sc"
    using assms(3-) by (auto simp: compare_dir_matches_def)
  with assms(1,2) show ?thesis by (simp add: has_icon_def)
qed

theorem final_tiebreak_later_directory_wins_witness:
  "compare_dir_matches (example_dir ICON_THEME_DIR_THRESHOLD 16 1 ''second/16x16'' ICON_SUFFIX_PNG) 2
     (example_dir ICON_THEME_DIR_THRESHOLD 16 1 ''first/16x16'' ICON_SUFFIX_PNG) 2 20 1 \<and>
   theme_lookup_icon_loop ''edit-cut'' 20 1 True
     [example_dir ICON_THEME_DIR_THRESHOLD 16 1 ''second/16x16'' ICON_SUFFIX_PNG]
     (Some (example_dir ICON_THEME_DIR_THRESHOLD 16 1 ''first/16x16'' ICON_SUFFIX_PNG)) 2 =
   Inr (Some (example_dir ICON_THEME_DIR_THRESHOLD 16 1 ''second/16x16'' ICON_SUFFIX_PNG), 2)"
  using final_tiebreak_later_directory_wins[of "''edit-cut''" True
      "example_dir ICON_THEME_DIR_THRESHOLD 16 1 ''second/16x16'' ICON_SUFFIX_PNG" 20 1 2 2
      "example_dir ICON_THEME_DIR_THRESHOLD 16 1 ''first/16x16'' ICON_SUFFIX_PNG" "[]"]
  by (simp add: example_simps)

section \<open>Request keys: theorems\<close>

lemma icon_names_equal_iff: "icon_names_equal xs ys \<longleftrightarrow> xs = ys"
  by (induction xs ys rule: icon_names_equal.induct) auto

text \<open>
  C8. The claim as stated fails in its second half: two keys whose name lists agree up to
  the end of the shorter list, one list being longer, do not compare equal (line 427
  requires both arrays to end at the same index).
\<close>

theorem key_with_name_prefix_not_equal:
  "kflags (example_key [''a'']) = kflags (example_key [''a'', ''b'']) \<and>
   ksize (example_key [''a'']) = ksize (example_key [''a'', ''b'']) \<and>
   kscale (example_key [''a'']) = kscale (example_key [''a'', ''b'']) \<and>
   icon_names (example_key [''a'']) = take 1 (icon_names (example_key [''a'', ''b''])) \<and>
   \<not> icon_info_key_equal (example_key [''a'']) (example_key [''a'', ''b''])"
  by (simp add: example_key_def icon_info_key_equal_def)

text \<open>
  C8, amended. Two request keys are equal exactly when they have identical flags,
  identical size, identical scale, and identical sequences of candidate names: the same
  length and equal names at every position.
\<close>

theorem icon_info_key_equal_iff:
  "icon_info_key_equal a b \<longleftrightarrow>
     kflags a = kflags b \<and> ksize a = ksize b \<and> kscale a = kscale b \<and>
     length (icon_names a) = length (icon_names b) \<and>
     list_all2 (=) (icon_names a) (icon_names b)"
  by (auto simp: icon_info_key_equal_def icon_names_equal_iff list_all2_eq [symmetric])

section \<open>Format priority: theorems\<close>











section \<open>Symbolic-first search: theorems\<close>





section \<open>ThemeRegistry: theorems\<close>

lemma search_path_theme_subdir_load [simp]:
  "search_path (fst (theme_subdir_load fs kf d st)) = search_path (fst st)"
  by (simp add: theme_subdir_load_def Let_def split: option.splits prod.splits)

lemma search_path_fold_theme_subdir_load [simp]:
  "search_path (fst (fold (theme_subdir_load fs kf) ds st)) = search_path (fst st)"
  by (induction ds arbitrary: st) simp_all

lemma search_path_load_theme_subdirs [simp]:
  "search_path (fst (load_theme_subdirs fs kf n ds s)) = search_path s"
  by (simp add: load_theme_subdirs_def Let_def split: option.splits)

lemma insert_themes_frame:
  assumes m: "\<And>fs n s. f (insert_theme_dir_mtimes fs n s) = f s"
    and l: "\<And>fs kf n ds s. f (fst (load_theme_subdirs fs kf n ds s)) = f s"
    and t: "\<And>s ts. f (s\<lparr> themes := ts \<rparr>) = f s"
  shows "f (insert_themes fs pending s) = f s"
proof (induction fs pending s rule: insert_themes.induct)
  case (1 fs s)
  then show ?case by simp
next
  case (2 fs theme_name pending s)
  show ?case
  proof (cases "theme_name \<in> tname ` set (themes s)")
    case True
    with 2(1) show ?thesis by simp
  next
    case False
    show ?thesis
    proof (cases "find_theme_file fs (search_path s) theme_name")
      case None
      show ?thesis
      proof (cases "theme_name = DEFAULT_THEME_NAME")
        case True
        from 2(2)[OF False None True] False None True show ?thesis by (simp add: m t)
      next
        case ne: False
        from 2(3)[OF False None ne] False None ne show ?thesis by (simp add: m)
      qed
    next
      case (Some kf)
      show ?thesis
      proof (cases "kf_directories kf")
        case None
        from 2(4)[OF False Some None] False Some None show ?thesis by (simp add: m)
      next
        case ds: (Some ds)
        from 2(5)[OF False Some ds] False Some ds show ?thesis by (simp add: m l t)
      qed
    qed
  qed
qed

lemma search_path_insert_themes [simp]:
  "search_path (insert_themes fs pending s) = search_path s"
  by (rule insert_themes_frame) simp_all

lemma themes_load_themes_loop [simp]:
  "themes (load_themes_loop fs dirs s) = themes s"
  by (induction fs dirs s rule: load_themes_loop.induct) (simp_all add: Let_def split: option.splits)

lemma names_insert_themes:
  "tname ` set (themes s) \<subseteq> tname ` set (themes (insert_themes fs pending s)) \<and>
   (distinct (map tname (themes s)) \<longrightarrow> distinct (map tname (themes (insert_themes fs pending s))))"
proof (induction fs pending s rule: insert_themes.induct)
  case (1 fs s)
  then show ?case by simp
next
  case (2 fs theme_name pending s)
  show ?case
  proof (cases "theme_name \<in> tname ` set (themes s)")
    case True
    with 2(1) show ?thesis by simp
  next
    case False
    show ?thesis
    proof (cases "find_theme_file fs (search_path s) theme_name")
      case None
      show ?thesis
      proof (cases "theme_name = DEFAULT_THEME_NAME")
        case True
        from 2(2)[OF False None True] False None True show ?thesis by auto
      next
        case ne: False
        from 2(3)[OF False None ne] False None ne show ?thesis by simp
      qed
    next
      case (Some kf)
      show ?thesis
      proof (cases "kf_directories kf")
        case None
        from 2(4)[OF False Some None] False Some None show ?thesis by simp
      next
        case ds: (Some ds)
        from 2(5)[OF False Some ds] False Some ds show ?thesis by auto
      qed
    qed
  qed
qed

lemma distinct_insert_themes:
  "distinct (map tname (themes s)) \<Longrightarrow> distinct (map tname (themes (insert_themes fs pending s)))"
  using names_insert_themes by blast

lemma names_insert_themes_mono:
  "tname ` set (themes s) \<subseteq> tname ` set (themes (insert_themes fs pending s))"
  using names_insert_themes by blast

lemma default_theme_inserted:
  assumes "default_theme_loadable fs (search_path s)"
  shows "DEFAULT_THEME_NAME \<in> tname ` set (themes (insert_theme fs DEFAULT_THEME_NAME s))"
proof (cases "DEFAULT_THEME_NAME \<in> tname ` set (themes s)")
  case True
  then show ?thesis by (simp add: insert_theme_def)
next
  case False
  show ?thesis
  proof (cases "find_theme_file fs (search_path s) DEFAULT_THEME_NAME")
    case None
    with False show ?thesis by (simp add: insert_theme_def)
  next
    case (Some kf)
    with assms obtain ds where ds: "kf_directories kf = Some ds"
      by (auto simp: default_theme_loadable_def)
    let ?s' = "(fst (load_theme_subdirs fs kf DEFAULT_THEME_NAME ds
                             (insert_theme_dir_mtimes fs DEFAULT_THEME_NAME s)))
                       \<lparr> themes :=
                            snd (load_theme_subdirs fs kf DEFAULT_THEME_NAME ds
                                   (insert_theme_dir_mtimes fs DEFAULT_THEME_NAME s)) # themes s \<rparr>"
    have "DEFAULT_THEME_NAME \<in> tname ` set (themes ?s')" by simp
    with names_insert_themes_mono[of ?s' fs]
    have "DEFAULT_THEME_NAME \<in> tname ` set (themes (insert_themes fs
        ((case kf_inherits kf of None \<Rightarrow> [] | Some ts \<Rightarrow> ts) @ []) ?s'))" by blast
    with False Some ds show ?thesis by (simp add: insert_theme_def)
  qed
qed






section \<open>Staleness: theorems\<close>

lemma rescan_themes_loop_changed:
  "fst (rescan_themes_loop fs dms n) = (\<exists>dm \<in> set dms. dir_changed fs dm)"
  by (induction fs dms n rule: rescan_themes_loop.induct) (auto simp: dir_changed_def split: option.splits)

lemma rescan_themes_loop_unchanged:
  "\<not> fst (rescan_themes_loop fs dms n) \<Longrightarrow> snd (rescan_themes_loop fs dms n) = n + length dms"
  by (induction fs dms n rule: rescan_themes_loop.induct) (auto split: option.splits if_splits)

lemma cache_part_theme_subdir_load [simp]:
  "cache_part (fst (theme_subdir_load fs kf d st)) = cache_part (fst st)"
  by (simp add: theme_subdir_load_def cache_part_def Let_def split: option.splits prod.splits)

lemma cache_part_fold_theme_subdir_load [simp]:
  "cache_part (fst (fold (theme_subdir_load fs kf) ds st)) = cache_part (fst st)"
  by (induction ds arbitrary: st) simp_all

lemma cache_part_load_theme_subdirs [simp]:
  "cache_part (fst (load_theme_subdirs fs kf n ds s)) = cache_part s"
  by (simp add: load_theme_subdirs_def Let_def split: option.splits)

lemma cache_part_insert_themes [simp]:
  "cache_part (insert_themes fs pending s) = cache_part s"
  by (rule insert_themes_frame) (simp_all, simp_all add: cache_part_def insert_theme_dir_mtimes_def)

lemma cache_part_load_themes_loop [simp]:
  "cache_part (load_themes_loop fs dirs s) = cache_part s"
  by (induction fs dirs s rule: load_themes_loop.induct)
     (simp_all add: Let_def cache_part_def split: option.splits)

lemma cache_part_load_themes [simp]:
  "cache_part (load_themes fs now s) = cache_part s"
proof -
  have 1: "\<And>s v. cache_part (s\<lparr> all_icons := v \<rparr>) = cache_part s"
    "\<And>s v. cache_part (s\<lparr> themes := v \<rparr>) = cache_part s"
    "\<And>s v. cache_part (s\<lparr> unthemed_icons := v \<rparr>) = cache_part s"
    "\<And>s v w. cache_part (s\<lparr> themes_valid := v, last_stat_time := w \<rparr>) = cache_part s"
    by (simp_all add: cache_part_def)
  show ?thesis
    by (simp add: load_themes_def Let_def insert_theme_def 1 del: insert_themes.simps
        split: option.splits)
qed

lemma themes_valid_load_themes [simp]: "themes_valid (load_themes fs now s)"
  by (simp add: load_themes_def Let_def)

lemma last_stat_time_load_themes [simp]: "last_stat_time (load_themes fs now s) = now"
  by (simp add: load_themes_def Let_def)

lemma info_cache_unref_detached [simp]:
  "info_cache (g_object_unref_detached p s) = info_cache s"
  by (simp add: g_object_unref_detached_def split: option.splits)

lemma info_cache_uncached [simp]:
  "info_cache (icon_info_uncached p s) = info_cache s"
  by (simp add: icon_info_uncached_def Let_def split: option.splits)

lemma info_cache_fold_uncached [simp]:
  "info_cache (fold icon_info_uncached ps s) = info_cache s"
  by (induction ps arbitrary: s) simp_all

lemma info_cache_remove_all [simp]: "info_cache (g_hash_table_remove_all s) = []"
  by (simp add: g_hash_table_remove_all_def)

lemma registry_part_unref_detached [simp]:
  "registry_part (g_object_unref_detached p s) = registry_part s"
  by (simp add: g_object_unref_detached_def registry_part_def split: option.splits)

lemma registry_part_uncached [simp]:
  "registry_part (icon_info_uncached p s) = registry_part s"
proof -
  have "\<And>s v. registry_part (s\<lparr> icon_infos := v \<rparr>) = registry_part s"
    "\<And>s v. registry_part (s\<lparr> info_cache_lru := v \<rparr>) = registry_part s"
    by (simp_all add: registry_part_def)
  then show ?thesis
    by (simp add: icon_info_uncached_def Let_def split: option.splits)
qed

lemma registry_part_fold_uncached [simp]:
  "registry_part (fold icon_info_uncached ps s) = registry_part s"
  by (induction ps arbitrary: s) simp_all

lemma registry_part_remove_all [simp]:
  "registry_part (g_hash_table_remove_all s) = registry_part s"
proof -
  have "registry_part (s\<lparr> info_cache := [] \<rparr>) = registry_part s"
    by (simp add: registry_part_def)
  then show ?thesis by (simp add: g_hash_table_remove_all_def)
qed

lemma registry_part_fields:
  "registry_part s = registry_part s' \<Longrightarrow>
     current_theme s = current_theme s' \<and> search_path s = search_path s' \<and>
     themes_valid s = themes_valid s' \<and> loading_themes s = loading_themes s' \<and>
     theme_changed_idle s = theme_changed_idle s' \<and> changed_emitted s = changed_emitted s' \<and>
     stat_calls s = stat_calls s' \<and> last_stat_time s = last_stat_time s' \<and>
     dir_mtimes s = dir_mtimes s' \<and> themes s = themes s'"
  by (simp add: registry_part_def)

lemma cache_part_fields:
  "cache_part s = cache_part s' \<Longrightarrow>
     info_cache s = info_cache s' \<and> info_cache_lru s = info_cache_lru s' \<and>
     icon_infos s = icon_infos s' \<and> theme_changed_idle s = theme_changed_idle s' \<and>
     changed_emitted s = changed_emitted s' \<and> loading_themes s = loading_themes s' \<and>
     current_theme s = current_theme s' \<and> search_path s = search_path s'"
  by (simp add: cache_part_def)

lemma within_interval:
  assumes "\<not> loading_themes s" "themes_valid s" "\<bar>now - last_stat_time s\<bar> \<le> 5"
  shows "snd (ensure_valid_themes fs now (g, s)) = s"
  using assms by (simp add: ensure_valid_themes_def Let_def)

lemma unchanged_dirs:
  assumes "\<not> loading_themes s" "themes_valid s" "\<bar>now - last_stat_time s\<bar> > 5"
    "\<not> (\<exists>dm \<in> set (dir_mtimes s). dir_changed fs dm)"
  shows "snd (ensure_valid_themes fs now (g, s)) =
         s\<lparr> stat_calls := stat_calls s + length (dir_mtimes s), last_stat_time := now \<rparr>"
proof -
  from assms(4) have nf: "\<not> fst (rescan_themes_loop fs (dir_mtimes s) 0)"
    by (simp add: rescan_themes_loop_changed)
  from rescan_themes_loop_unchanged[OF nf] have n: "snd (rescan_themes_loop fs (dir_mtimes s) 0) = length (dir_mtimes s)"
    by simp
  show ?thesis using assms(1-3) nf n
    by (simp add: ensure_valid_themes_def Let_def rescan_themes_def)
qed

lemma insert_themes_invariant:
  assumes m: "\<And>fs n s. P fs s \<Longrightarrow> P fs (insert_theme_dir_mtimes fs n s)"
    and l: "\<And>fs kf n ds s. P fs s \<Longrightarrow> P fs (fst (load_theme_subdirs fs kf n ds s))"
    and t: "\<And>fs s ts. P fs s \<Longrightarrow> P fs (s\<lparr> themes := ts \<rparr>)"
  shows "P fs s \<Longrightarrow> P fs (insert_themes fs pending s)"
proof (induction fs pending s rule: insert_themes.induct)
  case (1 fs s)
  then show ?case by simp
next
  case (2 fs theme_name pending s)
  note P = \<open>P fs s\<close>
  show ?case
  proof (cases "theme_name \<in> tname ` set (themes s)")
    case True
    with 2(1)[OF True P] show ?thesis by simp
  next
    case False
    show ?thesis
    proof (cases "find_theme_file fs (search_path s) theme_name")
      case None
      show ?thesis
      proof (cases "theme_name = DEFAULT_THEME_NAME")
        case True
        from 2(2)[OF False None True t[OF m[OF P]]] False None True show ?thesis by simp
      next
        case ne: False
        from 2(3)[OF False None ne m[OF P]] False None ne show ?thesis by simp
      qed
    next
      case (Some kf)
      show ?thesis
      proof (cases "kf_directories kf")
        case None
        from 2(4)[OF False Some None m[OF P]] False Some None show ?thesis by simp
      next
        case ds: (Some ds)
        from 2(5)[OF False Some ds t[OF l[OF m[OF P]]]] False Some ds show ?thesis by simp
      qed
    qed
  qed
qed

lemma dir_changed_mcache [simp]: "dir_changed fs (dm\<lparr> mcache := c \<rparr>) = dir_changed fs dm"
  by (simp add: dir_changed_def)

lemma theme_subdir_load_loop_fresh:
  "(\<forall>dm \<in> set (fst (theme_subdir_load_loop fs proto dms (visited, all, tds))). \<not> dir_changed fs dm)
   = (\<forall>dm \<in> set (visited @ dms). \<not> dir_changed fs dm)"
proof (induction dms arbitrary: visited all tds)
  case Nil
  then show ?case by simp
next
  case (Cons dm dms)
  show ?case
    by (simp add: Cons.IH Let_def split: option.splits)
qed

lemma dirs_fresh_theme_subdir_load:
  "dirs_fresh fs (fst (theme_subdir_load fs kf d st)) = dirs_fresh fs (fst st)"
  by (simp add: theme_subdir_load_def Let_def dirs_fresh_def theme_subdir_load_loop_fresh
      split: option.splits prod.splits)

lemma dirs_fresh_fold_theme_subdir_load:
  "dirs_fresh fs (fst (fold (theme_subdir_load fs kf) ds st)) = dirs_fresh fs (fst st)"
  by (induction ds arbitrary: st) (simp_all add: dirs_fresh_theme_subdir_load)

lemma dirs_fresh_load_theme_subdirs:
  "dirs_fresh fs s \<Longrightarrow> dirs_fresh fs (fst (load_theme_subdirs fs kf n ds s))"
  by (simp add: load_theme_subdirs_def Let_def dirs_fresh_fold_theme_subdir_load
      split: option.splits)

lemma set_fold_Cons: "set (fold (\<lambda>x l. f x # l) xs ys) = f ` set xs \<union> set ys"
  by (induction xs arbitrary: ys) auto

lemma dirs_fresh_insert_theme_dir_mtimes:
  "dirs_fresh fs s \<Longrightarrow> dirs_fresh fs (insert_theme_dir_mtimes fs n s)"
  by (auto simp: dirs_fresh_def insert_theme_dir_mtimes_def set_fold_Cons theme_dir_mtime_def
      dir_changed_def Let_def split: option.splits)

lemma dirs_fresh_insert_themes:
  "dirs_fresh fs s \<Longrightarrow> dirs_fresh fs (insert_themes fs pending s)"
  by (rule insert_themes_invariant[where P = dirs_fresh])
     (simp_all add: dirs_fresh_insert_theme_dir_mtimes dirs_fresh_load_theme_subdirs,
      simp add: dirs_fresh_def)

lemma load_themes_loop_dir_mtimes:
  "(dirs_fresh fs s \<longrightarrow> dirs_fresh fs (load_themes_loop fs dirs s)) \<and>
   mdir ` set (dir_mtimes (load_themes_loop fs dirs s)) = mdir ` set (dir_mtimes s) \<union> set dirs"
proof (induction fs dirs s rule: load_themes_loop.induct)
  case (1 fs s)
  then show ?case by simp
next
  case (2 fs dir rest s)
  show ?case
  proof (cases "map_of (fs_dirs fs) dir")
    case None
    with 2(1)[OF refl None] show ?thesis
      by (auto simp: dirs_fresh_def dir_changed_def)
  next
    case (Some t)
    show ?thesis
    proof (cases "map_of (fs_icon_caches fs) dir")
      case c: (Some c)
      with Some 2(2)[OF refl Some refl refl] show ?thesis
        by (auto simp: dirs_fresh_def dir_changed_def Let_def)
    next
      case nc: None
      show ?thesis
      proof (cases "map_of (fs_dir_entries fs) dir")
        case None
        with Some nc 2(3)[OF refl Some refl refl _ None] show ?thesis
          by (auto simp: dirs_fresh_def dir_changed_def Let_def)
      next
        case fl: (Some files)
        with Some nc 2(4)[OF refl Some refl refl _ fl refl] show ?thesis
          by (auto simp: dirs_fresh_def dir_changed_def Let_def)
      qed
    qed
  qed
qed

lemma insert_themes_described:
  "(\<forall>t \<in> set (themes s). tname t = DEFAULT_THEME_NAME \<or>
       find_theme_file fs (search_path s) (tname t) \<noteq> None) \<Longrightarrow>
   (\<forall>t \<in> set (themes (insert_themes fs pending s)). tname t = DEFAULT_THEME_NAME \<or>
       find_theme_file fs (search_path s) (tname t) \<noteq> None)"
proof (induction fs pending s rule: insert_themes.induct)
  case (1 fs s)
  then show ?case by simp
next
  case (2 fs theme_name pending s)
  note P = 2(6)
  show ?case
  proof (cases "theme_name \<in> tname ` set (themes s)")
    case True
    with 2(1)[OF True P] show ?thesis by simp
  next
    case False
    show ?thesis
    proof (cases "find_theme_file fs (search_path s) theme_name")
      case None
      show ?thesis
      proof (cases "theme_name = DEFAULT_THEME_NAME")
        case True
        from 2(2)[OF False None True] P False None True show ?thesis by simp
      next
        case ne: False
        from 2(3)[OF False None ne] P False None ne show ?thesis by simp
      qed
    next
      case (Some kf)
      show ?thesis
      proof (cases "kf_directories kf")
        case None
        from 2(4)[OF False Some None] P False Some None show ?thesis by simp
      next
        case ds: (Some ds)
        from 2(5)[OF False Some ds] P False Some ds show ?thesis by simp
      qed
    qed
  qed
qed

lemma insert_theme_described:
  "search_path s = path \<Longrightarrow>
   (\<forall>t \<in> set (themes s). tname t = DEFAULT_THEME_NAME \<or>
       find_theme_file fs path (tname t) \<noteq> None) \<Longrightarrow>
   (\<forall>t \<in> set (themes (insert_theme fs n s)). tname t = DEFAULT_THEME_NAME \<or>
       find_theme_file fs path (tname t) \<noteq> None)"
  using insert_themes_described[of s fs "[n]"]
  by (simp add: insert_theme_def del: insert_themes.simps)

lemma theme_inserted:
  assumes "find_theme_file fs (search_path s) n = Some kf" "kf_directories kf = Some ds"
  shows "n \<in> tname ` set (themes (insert_theme fs n s))"
proof (cases "n \<in> tname ` set (themes s)")
  case True
  then show ?thesis by (simp add: insert_theme_def)
next
  case False
  let ?s' = "(fst (load_theme_subdirs fs kf n ds (insert_theme_dir_mtimes fs n s)))
               \<lparr> themes := snd (load_theme_subdirs fs kf n ds (insert_theme_dir_mtimes fs n s))
                            # themes s \<rparr>"
  have "n \<in> tname ` set (themes ?s')" by simp
  with names_insert_themes_mono[of ?s' fs]
  have "n \<in> tname ` set (themes (insert_themes fs
      ((case kf_inherits kf of None \<Rightarrow> [] | Some ts \<Rightarrow> ts) @ []) ?s'))" by blast
  with False assms show ?thesis by (simp add: insert_theme_def)
qed

text \<open>What \<^verbatim>\<open>load_themes\<close> leaves when it starts from empty tables.\<close>

lemma load_themes_leaves:
  assumes "themes s = []" "dir_mtimes s = []"
  shows "distinct (map tname (themes (load_themes fs now s)))"
    and "default_theme_loadable fs (search_path s) \<Longrightarrow>
           DEFAULT_THEME_NAME \<in> tname ` set (themes (load_themes fs now s))"
    and "(n = ''gnome'' \<or> current_theme s = Some n) \<Longrightarrow>
         find_theme_file fs (search_path s) n = Some kf \<Longrightarrow> kf_directories kf \<noteq> None \<Longrightarrow>
           n \<in> tname ` set (themes (load_themes fs now s))"
    and "\<forall>t \<in> set (themes (load_themes fs now s)). tname t = DEFAULT_THEME_NAME \<or>
           find_theme_file fs (search_path s) (tname t) \<noteq> None"
    and "set (search_path s) \<subseteq> mdir ` set (dir_mtimes (load_themes fs now s))"
    and "\<forall>dm \<in> set (dir_mtimes (load_themes fs now s)). \<not> dir_changed fs dm"
proof -
  let ?s0 = "s\<lparr> all_icons := [] \<rparr>"
  let ?s1 = "case current_theme ?s0 of Some t \<Rightarrow> insert_theme fs t ?s0 | None \<Rightarrow> ?s0"
  let ?s2 = "insert_theme fs ''gnome'' ?s1"
  let ?s3 = "insert_theme fs DEFAULT_THEME_NAME ?s2"
  let ?s4 = "?s3\<lparr> themes := rev (themes ?s3), unthemed_icons := [] \<rparr>"
  have th: "themes (load_themes fs now s) = rev (themes ?s3)"
    by (simp add: load_themes_def Let_def del: insert_themes.simps)
  have dm: "dir_mtimes (load_themes fs now s) =
              dir_mtimes (load_themes_loop fs (search_path s) ?s4)"
    by (simp add: load_themes_def Let_def insert_theme_def del: insert_themes.simps
        split: option.splits)
  have sp1: "search_path ?s1 = search_path s"
    by (simp add: insert_theme_def del: insert_themes.simps split: option.splits)
  have sp2: "search_path ?s2 = search_path s"
    by (simp add: insert_theme_def del: insert_themes.simps split: option.splits)
  have d1: "distinct (map tname (themes ?s1))"
    using assms(1)
    by (simp add: insert_theme_def distinct_insert_themes del: insert_themes.simps
        split: option.splits)
  then have d3: "distinct (map tname (themes ?s3))"
    by (simp add: insert_theme_def distinct_insert_themes del: insert_themes.simps)
  show "distinct (map tname (themes (load_themes fs now s)))"
    using d3 unfolding th by (simp add: rev_map [symmetric])
  show "DEFAULT_THEME_NAME \<in> tname ` set (themes (load_themes fs now s))"
    if "default_theme_loadable fs (search_path s)"
  proof -
    from that sp2 have "default_theme_loadable fs (search_path ?s2)" by simp
    from default_theme_inserted[OF this] show ?thesis unfolding th by simp
  qed
  have m12: "tname ` set (themes ?s1) \<subseteq> tname ` set (themes ?s2)"
    unfolding insert_theme_def by (rule names_insert_themes_mono)
  have m23: "tname ` set (themes ?s2) \<subseteq> tname ` set (themes ?s3)"
    unfolding insert_theme_def by (rule names_insert_themes_mono)
  show "n \<in> tname ` set (themes (load_themes fs now s))"
    if n: "n = ''gnome'' \<or> current_theme s = Some n"
      and f: "find_theme_file fs (search_path s) n = Some kf" and k: "kf_directories kf \<noteq> None"
  proof -
    from k obtain ds where ds: "kf_directories kf = Some ds" by auto
    from n have "n \<in> tname ` set (themes ?s2)"
    proof
      assume g: "n = ''gnome''"
      from f sp1 have "find_theme_file fs (search_path ?s1) n = Some kf" by simp
      from theme_inserted[OF this ds] g show ?thesis by simp
    next
      assume c: "current_theme s = Some n"
      have "find_theme_file fs (search_path ?s0) n = Some kf" using f by simp
      from theme_inserted[OF this ds] c have "n \<in> tname ` set (themes ?s1)" by simp
      with m12 show ?thesis by blast
    qed
    with m23 show ?thesis unfolding th by auto
  qed
  have p0: "\<forall>t \<in> set (themes ?s0). tname t = DEFAULT_THEME_NAME \<or>
       find_theme_file fs (search_path s) (tname t) \<noteq> None"
    using assms(1) by simp
  have p1: "\<forall>t \<in> set (themes ?s1). tname t = DEFAULT_THEME_NAME \<or>
       find_theme_file fs (search_path s) (tname t) \<noteq> None"
  proof (cases "current_theme s")
    case None
    with assms(1) show ?thesis by simp
  next
    case (Some t)
    with insert_theme_described[where s = ?s0 and path = "search_path s" and fs = fs and n = t] p0
    show ?thesis by simp
  qed
  from insert_theme_described[OF sp1 p1]
  have p2: "\<forall>t \<in> set (themes ?s2). tname t = DEFAULT_THEME_NAME \<or>
       find_theme_file fs (search_path s) (tname t) \<noteq> None" .
  from insert_theme_described[OF sp2 p2]
  have "\<forall>t \<in> set (themes ?s3). tname t = DEFAULT_THEME_NAME \<or>
       find_theme_file fs (search_path s) (tname t) \<noteq> None" .
  then show "\<forall>t \<in> set (themes (load_themes fs now s)). tname t = DEFAULT_THEME_NAME \<or>
           find_theme_file fs (search_path s) (tname t) \<noteq> None"
    unfolding th by simp
  have sp4: "search_path ?s4 = search_path s"
    by (simp add: insert_theme_def del: insert_themes.simps split: option.splits)
  from load_themes_loop_dir_mtimes[of fs ?s4 "search_path s"]
  show "set (search_path s) \<subseteq> mdir ` set (dir_mtimes (load_themes fs now s))"
    unfolding dm by blast
  have f0: "dirs_fresh fs ?s0" using assms(2) by (simp add: dirs_fresh_def)
  have f1: "dirs_fresh fs ?s1"
    using f0 by (simp add: insert_theme_def dirs_fresh_insert_themes del: insert_themes.simps
        split: option.splits)
  then have "dirs_fresh fs ?s3"
    by (simp add: insert_theme_def dirs_fresh_insert_themes del: insert_themes.simps)
  then have "dirs_fresh fs ?s4" by (simp add: dirs_fresh_def)
  with load_themes_loop_dir_mtimes[of fs ?s4 "search_path s"]
  show "\<forall>dm \<in> set (dir_mtimes (load_themes fs now s)). \<not> dir_changed fs dm"
    unfolding dm dirs_fresh_def by blast
qed

lemma detached_unref_detached:
  "detached s p \<Longrightarrow> detached (g_object_unref_detached q s) p"
  by (auto simp: detached_def g_object_unref_detached_def split: option.splits)

lemma detached_uncached_same: "detached (icon_info_uncached p s) p"
proof (cases "icon_infos s p")
  case None
  then show ?thesis by (simp add: icon_info_uncached_def detached_def)
next
  case (Some i)
  let ?s1 = "s\<lparr> icon_infos := (icon_infos s)(p \<mapsto> i\<lparr> in_cache := False \<rparr>) \<rparr>"
  have d: "detached ?s1 p" by (simp add: detached_def)
  then have "detached (?s1\<lparr> info_cache_lru := remove1 p (info_cache_lru ?s1) \<rparr>) p"
    by (simp add: detached_def)
  from detached_unref_detached[OF this, of p] d Some show ?thesis
    by (simp add: icon_info_uncached_def Let_def)
qed

lemma detached_uncached_other: "detached s p \<Longrightarrow> detached (icon_info_uncached q s) p"
  by (cases "p = q")
     (auto simp: icon_info_uncached_def Let_def detached_def g_object_unref_detached_def
      split: option.splits)

lemma detached_fold:
  "(p \<in> set ps \<or> detached s p) \<Longrightarrow> detached (fold icon_info_uncached ps s) p"
proof (induction ps arbitrary: s)
  case Nil
  then show ?case by simp
next
  case (Cons q ps)
  show ?case
  proof (cases "p = q")
    case True
    then show ?thesis using Cons.IH[of "icon_info_uncached q s"]
      by (simp add: detached_uncached_same)
  next
    case False
    with Cons.prems have "p \<in> set ps \<or> detached (icon_info_uncached q s) p"
      by (auto simp: detached_uncached_other)
    from Cons.IH[OF this] show ?thesis by simp
  qed
qed

lemma detached_remove_all:
  "p \<in> set (info_cache s) \<Longrightarrow> detached (g_hash_table_remove_all s) p"
  by (simp add: g_hash_table_remove_all_def detached_fold)

lemma detached_frame: "icon_infos s' = icon_infos s \<Longrightarrow> detached s' p = detached s p"
  by (simp add: detached_def)

lemma invalidated:
  assumes "\<not> loading_themes s" "themes_valid s" "\<bar>now - last_stat_time s\<bar> > 5"
    "\<exists>dm \<in> set (dir_mtimes s). dir_changed fs dm"
  shows "\<exists>s0. torn_down s0 \<and> current_theme s0 = current_theme s \<and> search_path s0 = search_path s \<and>
           changed_emitted s0 = changed_emitted s \<and>
           (\<forall>p \<in> set (info_cache s). detached s0 p) \<and>
           snd (ensure_valid_themes fs now (g, s)) =
             (queue_theme_changed (load_themes fs now s0))\<lparr> loading_themes := False \<rparr>"
proof -
  let ?r = "rescan_themes fs now (s\<lparr> loading_themes := True \<rparr>)"
  let ?s0 = "blow_themes (g_hash_table_remove_all (snd ?r))"
  from assms(4) have fl: "fst (rescan_themes_loop fs (dir_mtimes s) 0)"
    by (simp add: rescan_themes_loop_changed)
  then have f: "fst ?r"
    by (simp add: rescan_themes_def Let_def)
  have sr: "snd ?r = s\<lparr> loading_themes := True,
      stat_calls := stat_calls s + snd (rescan_themes_loop fs (dir_mtimes s) 0) \<rparr>"
    using fl by (simp add: rescan_themes_def Let_def)
  have td: "torn_down ?s0" by (simp add: torn_down_def blow_themes_def)
  have rp: "registry_part (g_hash_table_remove_all (snd ?r)) = registry_part (snd ?r)" by simp
  from registry_part_fields[OF rp] have
    ct: "current_theme ?s0 = current_theme s" "search_path ?s0 = search_path s"
      "changed_emitted ?s0 = changed_emitted s"
    by (simp_all add: blow_themes_def sr)
  have dt: "\<forall>p \<in> set (info_cache s). detached ?s0 p"
  proof
    fix p assume "p \<in> set (info_cache s)"
    then have "p \<in> set (info_cache (snd ?r))" by (simp add: sr)
    from detached_remove_all[OF this]
    show "detached ?s0 p" by (simp add: detached_def blow_themes_def)
  qed
  have "snd (ensure_valid_themes fs now (g, s)) =
          (queue_theme_changed (load_themes fs now ?s0))\<lparr> loading_themes := False \<rparr>"
    using assms(1-3) f by (simp add: ensure_valid_themes_def Let_def blow_themes_def)
  with td ct dt show ?thesis by blast
qed

lemma queued_once:
  "theme_changed_idle (queue_theme_changed s) \<and>
   changed_emitted (queue_theme_changed s) = changed_emitted s \<and>
   changed_emitted (theme_changed_idle_callback (queue_theme_changed s)) = changed_emitted s + 1 \<and>
   \<not> theme_changed_idle (theme_changed_idle_callback (queue_theme_changed s))"
  by (simp add: queue_theme_changed_def theme_changed_idle_callback_def)

text \<open>
  C6. For a call of \<^verbatim>\<open>ensure_valid_themes\<close> at time \<open>now\<close> that is not made from inside a
  load (the guard \<^verbatim>\<open>loading_themes\<close> is clear):
  \<^item> on a valid registry, within 5 time units of the last stat pass, nothing changes at
    all; in particular no \<^verbatim>\<open>g_stat\<close> call is counted;
  \<^item> on a valid registry, after more than 5 time units, if some tracked directory has
    changed, the state after the call is that of \<^verbatim>\<open>load_themes\<close> run on a state whose
    caches and tables are all empty, with the idle source of the "changed" signal
    installed: the primary cache is empty and every object it held is detached, the
    registry is valid again, nothing has been emitted during the call, and the idle
    callback then emits the signal once and removes the source. The reload leaves a
    theme list without duplicate names, which holds the default theme when that is
    loadable, holds \<^verbatim>\<open>gnome\<close> and the current theme when their descriptors list
    \<^verbatim>\<open>Directories\<close>, and holds no theme other than the default without a descriptor on the
    search path; every search path element is tracked again, and no tracked directory
    has changed with respect to what was recorded;
  \<^item> on a valid registry, after more than 5 time units, if no tracked directory has
    changed, every tracked directory has been stat'ed and only the time of the last stat
    pass moves;
  \<^item> on a registry that was not valid, the call loads the themes and neither installs the
    idle source nor emits anything.
\<close>

theorem ensure_valid_themes_staleness:
  assumes "\<not> loading_themes s"
  shows "(themes_valid s \<and> \<bar>now - last_stat_time s\<bar> \<le> 5 \<longrightarrow>
            snd (ensure_valid_themes fs now (g, s)) = s) \<and>
         (themes_valid s \<and> \<bar>now - last_stat_time s\<bar> > 5 \<and>
          (\<exists>dm \<in> set (dir_mtimes s). dir_changed fs dm) \<longrightarrow>
            (\<exists>s0. torn_down s0 \<and> current_theme s0 = current_theme s \<and>
                  search_path s0 = search_path s \<and>
                  snd (ensure_valid_themes fs now (g, s)) =
                    (queue_theme_changed (load_themes fs now s0))\<lparr> loading_themes := False \<rparr>) \<and>
            info_cache (snd (ensure_valid_themes fs now (g, s))) = [] \<and>
            themes_valid (snd (ensure_valid_themes fs now (g, s))) \<and>
            last_stat_time (snd (ensure_valid_themes fs now (g, s))) = now \<and>
            theme_changed_idle (snd (ensure_valid_themes fs now (g, s))) \<and>
            changed_emitted (snd (ensure_valid_themes fs now (g, s))) = changed_emitted s \<and>
            changed_emitted (theme_changed_idle_callback (snd (ensure_valid_themes fs now (g, s))))
              = changed_emitted s + 1 \<and>
            \<not> theme_changed_idle
                (theme_changed_idle_callback (snd (ensure_valid_themes fs now (g, s)))) \<and>
            (\<forall>p \<in> set (info_cache s). detached (snd (ensure_valid_themes fs now (g, s))) p) \<and>
            distinct (map tname (themes (snd (ensure_valid_themes fs now (g, s))))) \<and>
            (default_theme_loadable fs (search_path s) \<longrightarrow>
               DEFAULT_THEME_NAME \<in> tname ` set (themes (snd (ensure_valid_themes fs now (g, s))))) \<and>
            (\<forall>n theme_file.
               (n = ''gnome'' \<or> current_theme s = Some n) \<and>
               find_theme_file fs (search_path s) n = Some theme_file \<and>
               kf_directories theme_file \<noteq> None \<longrightarrow>
               n \<in> tname ` set (themes (snd (ensure_valid_themes fs now (g, s))))) \<and>
            (\<forall>t \<in> set (themes (snd (ensure_valid_themes fs now (g, s)))).
               tname t = DEFAULT_THEME_NAME \<or>
               find_theme_file fs (search_path s) (tname t) \<noteq> None) \<and>
            set (search_path s) \<subseteq> mdir ` set (dir_mtimes (snd (ensure_valid_themes fs now (g, s)))) \<and>
            (\<forall>dm \<in> set (dir_mtimes (snd (ensure_valid_themes fs now (g, s)))).
               \<not> dir_changed fs dm)) \<and>
         (themes_valid s \<and> \<bar>now - last_stat_time s\<bar> > 5 \<and>
          \<not> (\<exists>dm \<in> set (dir_mtimes s). dir_changed fs dm) \<longrightarrow>
            snd (ensure_valid_themes fs now (g, s)) =
              s\<lparr> stat_calls := stat_calls s + length (dir_mtimes s), last_stat_time := now \<rparr>) \<and>
         (\<not> themes_valid s \<longrightarrow>
            snd (ensure_valid_themes fs now (g, s)) =
              (load_themes fs now (s\<lparr> loading_themes := True \<rparr>))\<lparr> loading_themes := False \<rparr> \<and>
            theme_changed_idle (snd (ensure_valid_themes fs now (g, s))) = theme_changed_idle s \<and>
            changed_emitted (snd (ensure_valid_themes fs now (g, s))) = changed_emitted s)"
proof (intro conjI impI)
  assume "themes_valid s \<and> \<bar>now - last_stat_time s\<bar> \<le> 5"
  with assms show "snd (ensure_valid_themes fs now (g, s)) = s"
    by (simp add: within_interval)
next
  assume a: "themes_valid s \<and> 5 < \<bar>now - last_stat_time s\<bar> \<and>
          (\<exists>dm \<in> set (dir_mtimes s). dir_changed fs dm)"
  let ?s' = "snd (ensure_valid_themes fs now (g, s))"
  from a assms invalidated[of s now fs g] obtain s0 where
    s0: "torn_down s0" "current_theme s0 = current_theme s" "search_path s0 = search_path s"
      "?s' = (queue_theme_changed (load_themes fs now s0))\<lparr> loading_themes := False \<rparr>"
    and ce: "changed_emitted s0 = changed_emitted s"
    and dt: "\<forall>p \<in> set (info_cache s). detached s0 p"
    by blast
  then show "\<exists>s0. torn_down s0 \<and> current_theme s0 = current_theme s \<and>
                  search_path s0 = search_path s \<and>
                  ?s' = (queue_theme_changed (load_themes fs now s0))\<lparr> loading_themes := False \<rparr>"
    by blast
  have cp: "cache_part (load_themes fs now s0) = cache_part s0" by simp
  note f = cache_part_fields[OF cp]
  show "info_cache ?s' = []"
    using s0(1,4) f by (simp add: queue_theme_changed_def torn_down_def)
  show "themes_valid ?s'" using s0(4) by (simp add: queue_theme_changed_def)
  show "last_stat_time ?s' = now" using s0(4) by (simp add: queue_theme_changed_def)
  show "theme_changed_idle ?s'" using s0(4) by (simp add: queue_theme_changed_def)
  show "changed_emitted ?s' = changed_emitted s"
    using s0(4) f ce by (simp add: queue_theme_changed_def)
  show "changed_emitted (theme_changed_idle_callback ?s') = changed_emitted s + 1"
    using s0(4) f ce by (simp add: queue_theme_changed_def theme_changed_idle_callback_def)
  show "\<not> theme_changed_idle (theme_changed_idle_callback ?s')"
    by (simp add: theme_changed_idle_callback_def)
  have ii: "icon_infos ?s' = icon_infos s0"
    using s0(4) f by (simp add: queue_theme_changed_def)
  show "\<forall>p \<in> set (info_cache s). detached ?s' p"
    using dt by (simp add: detached_frame[OF ii])
  have th: "themes ?s' = themes (load_themes fs now s0)"
    and dm: "dir_mtimes ?s' = dir_mtimes (load_themes fs now s0)"
    using s0(4) by (simp_all add: queue_theme_changed_def)
  from s0(1) have e: "themes s0 = []" "dir_mtimes s0 = []" by (simp_all add: torn_down_def)
  note l = load_themes_leaves[OF e, unfolded s0(2,3)]
  show "distinct (map tname (themes ?s'))" unfolding th by (rule l(1))
  show "DEFAULT_THEME_NAME \<in> tname ` set (themes ?s')"
    if "default_theme_loadable fs (search_path s)"
    unfolding th using that by (rule l(2))
  show "\<forall>n theme_file.
               (n = ''gnome'' \<or> current_theme s = Some n) \<and>
               find_theme_file fs (search_path s) n = Some theme_file \<and>
               kf_directories theme_file \<noteq> None \<longrightarrow>
               n \<in> tname ` set (themes ?s')"
    unfolding th using l(3) by blast
  show "\<forall>t \<in> set (themes ?s').
               tname t = DEFAULT_THEME_NAME \<or>
               find_theme_file fs (search_path s) (tname t) \<noteq> None"
    unfolding th by (rule l(4))
  show "set (search_path s) \<subseteq> mdir ` set (dir_mtimes ?s')" unfolding dm by (rule l(5))
  show "\<forall>dm \<in> set (dir_mtimes ?s'). \<not> dir_changed fs dm" unfolding dm by (rule l(6))
next
  assume "themes_valid s \<and> 5 < \<bar>now - last_stat_time s\<bar> \<and>
          \<not> (\<exists>dm \<in> set (dir_mtimes s). dir_changed fs dm)"
  with assms unchanged_dirs[of s now fs g]
  show "snd (ensure_valid_themes fs now (g, s)) =
          s\<lparr> stat_calls := stat_calls s + length (dir_mtimes s), last_stat_time := now \<rparr>"
    by blast
next
  assume nv: "\<not> themes_valid s"
  let ?s1 = "s\<lparr> loading_themes := True \<rparr>"
  show e: "snd (ensure_valid_themes fs now (g, s)) = (load_themes fs now ?s1)\<lparr> loading_themes := False \<rparr>"
    using assms nv by (simp add: ensure_valid_themes_def Let_def)
  have cp: "cache_part (load_themes fs now ?s1) = cache_part ?s1" by simp
  note f = cache_part_fields[OF cp]
  show "theme_changed_idle (snd (ensure_valid_themes fs now (g, s))) = theme_changed_idle s"
    using e f by simp
  show "changed_emitted (snd (ensure_valid_themes fs now (g, s))) = changed_emitted s"
    using e f by simp
qed


lemmas reload_simps =
  ensure_valid_themes_def rescan_themes_def g_hash_table_remove_all_def icon_info_uncached_def
  blow_themes_def queue_theme_changed_def theme_changed_idle_callback_def ensure_builtin_cache_def
  load_themes_def insert_theme_def load_theme_subdirs_def theme_subdir_load_def
  insert_theme_dir_mtimes_def theme_dir_mtime_def scan_directory_def
  strip_suffix_def suffix_from_name_def g_str_has_suffix_def g_build_filename_def
  example_loaded_state_def example_fs_icons_def example_state_def example_globals_def
  example_gnome_file_def example_foo_def example_theme_def example_dir_def example_key_def
  icon_info_new_def DEFAULT_THEME_NAME_def dir_changed_def detached_def Let_def
  ICON_SUFFIX_PNG_def ICON_SUFFIX_NONE_def ICON_SUFFIX_SVG_def ICON_SUFFIX_XPM_def
  table_lookup_def

theorem ensure_valid_themes_staleness_witness:
  "map tname (themes example_loaded_state) = [''Foo''] \<and>
   info_cache example_loaded_state = [0] \<and>
   map_option in_cache (icon_infos example_loaded_state 0) = Some True \<and>
   snd (ensure_valid_themes example_fs_icons 3 (example_globals, example_loaded_state))
     = example_loaded_state \<and>
   themes (snd (ensure_valid_themes example_fs_icons 10 (example_globals, example_loaded_state)))
     = [\<lparr> tname = ''gnome'', tdisplay_name = Some ''GNOME'', tcomment = None, texample = None,
          tdirs = [\<lparr> dtype = ICON_THEME_DIR_FIXED, dsize = 16, dmin_size = 16, dmax_size = 16,
                     dthreshold = 2, dscale = 1, ddir = Some ''/icons/gnome/16x16'',
                     dsubdir = ''16x16'', dcache = None,
                     dicons = [(''edit-paste'', ICON_SUFFIX_PNG)] \<rparr>] \<rparr>,
        \<lparr> tname = ''hicolor'', tdisplay_name = None, tcomment = None, texample = None,
          tdirs = [] \<rparr>] \<and>
   unthemed_icons
       (snd (ensure_valid_themes example_fs_icons 10 (example_globals, example_loaded_state)))
     = [(''stray'', \<lparr> svg_filename = Some ''/icons/stray.svg'', no_svg_filename = None \<rparr>)] \<and>
   all_icons (snd (ensure_valid_themes example_fs_icons 10 (example_globals, example_loaded_state)))
     = [''stray'', ''edit-paste''] \<and>
   dir_mtimes (snd (ensure_valid_themes example_fs_icons 10 (example_globals, example_loaded_state)))
     = [\<lparr> mdir = ''/icons/gnome'', mmtime = 100, mcache = None \<rparr>,
        \<lparr> mdir = ''/icons/hicolor'', mmtime = 0, mcache = None \<rparr>,
        \<lparr> mdir = ''/icons'', mmtime = 100, mcache = None \<rparr>] \<and>
   info_cache (snd (ensure_valid_themes example_fs_icons 10 (example_globals, example_loaded_state)))
     = [] \<and>
   map_option in_cache
       (icon_infos
          (snd (ensure_valid_themes example_fs_icons 10 (example_globals, example_loaded_state))) 0)
     = Some False \<and>
   themes_valid
     (snd (ensure_valid_themes example_fs_icons 10 (example_globals, example_loaded_state))) \<and>
   last_stat_time
     (snd (ensure_valid_themes example_fs_icons 10 (example_globals, example_loaded_state))) = 10 \<and>
   theme_changed_idle
     (snd (ensure_valid_themes example_fs_icons 10 (example_globals, example_loaded_state))) \<and>
   changed_emitted
     (snd (ensure_valid_themes example_fs_icons 10 (example_globals, example_loaded_state))) = 0 \<and>
   changed_emitted (theme_changed_idle_callback
      (snd (ensure_valid_themes example_fs_icons 10 (example_globals, example_loaded_state)))) = 1 \<and>
   snd (ensure_valid_themes example_fs_icons 20
          (example_globals,
           snd (ensure_valid_themes example_fs_icons 10 (example_globals, example_loaded_state))))
     = (snd (ensure_valid_themes example_fs_icons 10 (example_globals, example_loaded_state)))
         \<lparr> stat_calls := 7, last_stat_time := 20 \<rparr> \<and>
   \<not> theme_changed_idle
       (snd (ensure_valid_themes example_fs_icons 10 (example_globals, example_state)))"
proof -
  let ?s = example_loaded_state
  let ?s' = "snd (ensure_valid_themes example_fs_icons 10 (example_globals, example_loaded_state))"
  note t0 = ensure_valid_themes_staleness[where s = ?s and now = 3 and fs = example_fs_icons
      and g = example_globals]
  note t = ensure_valid_themes_staleness[where s = ?s and now = 10 and fs = example_fs_icons
      and g = example_globals]
  note t2 = ensure_valid_themes_staleness[where s = ?s' and now = 20 and fs = example_fs_icons
      and g = example_globals]
  note t3 = ensure_valid_themes_staleness[where s = example_state and now = 10
      and fs = example_fs_icons and g = example_globals]
  have nl: "\<not> loading_themes ?s" "themes_valid ?s" "last_stat_time ?s = 0"
    "changed_emitted ?s = 0" "info_cache ?s = [0]"
    "map tname (themes ?s) = [''Foo'']"
    "map_option in_cache (icon_infos ?s 0) = Some True"
    by (simp_all add: example_loaded_state_def example_state_def example_foo_def example_theme_def
        icon_info_new_def)
  have ch: "\<exists>dm \<in> set (dir_mtimes ?s). dir_changed example_fs_icons dm"
    by (simp add: example_loaded_state_def example_state_def example_fs_icons_def dir_changed_def)
  from t0[OF nl(1)] nl(2,3) have r0:
    "snd (ensure_valid_themes example_fs_icons 3 (example_globals, ?s)) = ?s"
    by simp
  from t[OF nl(1)] nl(2,3) ch have r:
    "info_cache ?s' = []" "themes_valid ?s'" "last_stat_time ?s' = 10" "theme_changed_idle ?s'"
    "changed_emitted ?s' = changed_emitted ?s"
    "changed_emitted (theme_changed_idle_callback ?s') = changed_emitted ?s + 1"
    "\<forall>p \<in> set (info_cache ?s). detached ?s' p"
    "\<forall>dm \<in> set (dir_mtimes ?s'). \<not> dir_changed example_fs_icons dm"
    by simp_all
  have e: "\<not> loading_themes ?s'"
    by (simp add: ensure_valid_themes_def Let_def nl(1))
  have th: "themes ?s'
     = [\<lparr> tname = ''gnome'', tdisplay_name = Some ''GNOME'', tcomment = None, texample = None,
          tdirs = [\<lparr> dtype = ICON_THEME_DIR_FIXED, dsize = 16, dmin_size = 16, dmax_size = 16,
                     dthreshold = 2, dscale = 1, ddir = Some ''/icons/gnome/16x16'',
                     dsubdir = ''16x16'', dcache = None,
                     dicons = [(''edit-paste'', ICON_SUFFIX_PNG)] \<rparr>] \<rparr>,
        \<lparr> tname = ''hicolor'', tdisplay_name = None, tcomment = None, texample = None,
          tdirs = [] \<rparr>]"
    by (simp add: reload_simps)
  have ui: "unthemed_icons ?s'
     = [(''stray'', \<lparr> svg_filename = Some ''/icons/stray.svg'', no_svg_filename = None \<rparr>)]"
    by (simp add: reload_simps)
  have ai: "all_icons ?s' = [''stray'', ''edit-paste'']"
    by (simp add: reload_simps)
  have dm: "dir_mtimes ?s'
     = [\<lparr> mdir = ''/icons/gnome'', mmtime = 100, mcache = None \<rparr>,
        \<lparr> mdir = ''/icons/hicolor'', mmtime = 0, mcache = None \<rparr>,
        \<lparr> mdir = ''/icons'', mmtime = 100, mcache = None \<rparr>]"
    by (simp add: reload_simps)
  have sc: "stat_calls ?s' = 4"
    by (simp add: reload_simps)
  from r(7) nl(5) have "detached ?s' 0" by simp
  moreover have "icon_infos ?s' 0 \<noteq> None" by (simp add: reload_simps)
  ultimately have ic: "map_option in_cache (icon_infos ?s' 0) = Some False"
    by (auto simp: detached_def)
  from t2[OF e] r(2,3,8) have
    "snd (ensure_valid_themes example_fs_icons 20 (example_globals, ?s'))
       = ?s'\<lparr> stat_calls := stat_calls ?s' + length (dir_mtimes ?s'), last_stat_time := 20 \<rparr>"
    by simp
  then have r2: "snd (ensure_valid_themes example_fs_icons 20 (example_globals, ?s'))
       = ?s'\<lparr> stat_calls := 7, last_stat_time := 20 \<rparr>"
    unfolding sc dm by simp
  have "\<not> loading_themes example_state" "\<not> themes_valid example_state"
    "\<not> theme_changed_idle example_state"
    by (simp_all add: example_state_def)
  with t3 have r3: "\<not> theme_changed_idle
       (snd (ensure_valid_themes example_fs_icons 10 (example_globals, example_state)))"
    by blast
  show ?thesis
    using nl(4-7) r0 r(1-6) th ui ai dm ic r2 r3 by simp
qed


section \<open>The LRU side list: theorems\<close>

text \<open>
  \<^verbatim>\<open>icon_info_uncached\<close> calls \<^verbatim>\<open>remove_from_lru_cache\<close> after it has cleared
  \<^verbatim>\<open>in_cache\<close>; on such an object \<^verbatim>\<open>g_object_unref\<close> is \<open>g_object_unref_detached\<close>.
\<close>

lemma g_object_unref_detached_eq:
  assumes "icon_infos s p = Some i" "\<not> in_cache i"
  shows "g_object_unref p s = g_object_unref_detached p s"
  using assms
  by (simp add: g_object_unref_def g_object_unref_detached_def gtk_icon_info_finalize_def Let_def)

lemma lru_shrinks_refl [simp]: "lru_shrinks xs xs"
  by (simp add: lru_shrinks_def)

lemma lru_shrinks_trans: "lru_shrinks xs ys \<Longrightarrow> lru_shrinks ys zs \<Longrightarrow> lru_shrinks xs zs"
  by (auto simp: lru_shrinks_def)

lemma lru_shrinks_remove1 [simp]: "lru_shrinks xs (remove1 x xs)"
  using set_remove1_subset[of x xs] by (auto simp: lru_shrinks_def length_remove1)

lemma lru_g_object_ref [simp]: "info_cache_lru (g_object_ref p s) = info_cache_lru s"
  by (simp add: g_object_ref_def split: option.splits)

lemma lru_unref_detached [simp]:
  "info_cache_lru (g_object_unref_detached p s) = info_cache_lru s"
  by (simp add: g_object_unref_detached_def split: option.splits)

lemma lru_uncached: "lru_shrinks (info_cache_lru s) (info_cache_lru (icon_info_uncached p s))"
  by (simp add: icon_info_uncached_def Let_def split: option.splits)

lemma lru_fold_uncached:
  "lru_shrinks (info_cache_lru s) (info_cache_lru (fold icon_info_uncached ps s))"
proof (induction ps arbitrary: s)
  case Nil
  then show ?case by simp
next
  case (Cons p ps)
  from lru_shrinks_trans[OF lru_uncached[of s p] Cons[of "icon_info_uncached p s"]]
  show ?case by simp
qed

lemma lru_remove_all:
  "lru_shrinks (info_cache_lru s) (info_cache_lru (g_hash_table_remove_all s))"
  using lru_fold_uncached[of "s\<lparr> info_cache := [] \<rparr>" "info_cache s"]
  by (simp add: g_hash_table_remove_all_def)

lemma lru_hash_remove:
  "lru_shrinks (info_cache_lru s) (info_cache_lru (g_hash_table_remove k s))"
  using lru_uncached[of "s\<lparr> info_cache := remove1 p (info_cache s) \<rparr>" for p]
  by (simp add: g_hash_table_remove_def split: option.splits)

lemma lru_finalize:
  "lru_shrinks (info_cache_lru s) (info_cache_lru (gtk_icon_info_finalize p s))"
  using lru_hash_remove
  by (simp add: gtk_icon_info_finalize_def Let_def split: option.splits)

lemma lru_unref:
  "lru_shrinks (info_cache_lru s) (info_cache_lru (g_object_unref p s))"
  using lru_finalize[of "s\<lparr> icon_infos := (icon_infos s)(p \<mapsto> i\<lparr> ref_count := 0 \<rparr>) \<rparr>" p for i]
  by (simp add: g_object_unref_def split: option.splits)

lemma lru_remove_from:
  "lru_shrinks (info_cache_lru s) (info_cache_lru (remove_from_lru_cache p s))"
proof (cases "p \<in> set (info_cache_lru s)")
  case True
  have "lru_shrinks (remove1 p (info_cache_lru s))
      (info_cache_lru (g_object_unref p (s\<lparr> info_cache_lru := remove1 p (info_cache_lru s) \<rparr>)))"
    using lru_unref[of "s\<lparr> info_cache_lru := remove1 p (info_cache_lru s) \<rparr>" p] by simp
  from lru_shrinks_trans[OF lru_shrinks_remove1 this]
  show ?thesis using True by (simp add: remove_from_lru_cache_def)
next
  case False
  then show ?thesis by (simp add: remove_from_lru_cache_def)
qed

lemma lru_shrinks_bounded:
  "lru_bounded s \<Longrightarrow> lru_shrinks (info_cache_lru s) (info_cache_lru s') \<Longrightarrow> lru_bounded s'"
  by (auto simp: lru_bounded_def lru_shrinks_def)

lemma remove_from_lru_cache_absent:
  assumes "distinct (info_cache_lru s)"
  shows "p \<notin> set (info_cache_lru (remove_from_lru_cache p s))"
proof (cases "p \<in> set (info_cache_lru s)")
  case True
  let ?s1 = "s\<lparr> info_cache_lru := remove1 p (info_cache_lru s) \<rparr>"
  from assms have "p \<notin> set (info_cache_lru ?s1)" by simp
  moreover from lru_unref[of ?s1 p]
  have "set (info_cache_lru (g_object_unref p ?s1)) \<subseteq> set (info_cache_lru ?s1)"
    by (simp add: lru_shrinks_def)
  ultimately show ?thesis using True by (auto simp: remove_from_lru_cache_def)
next
  case False
  then show ?thesis by (simp add: remove_from_lru_cache_def)
qed

lemma evict_index:
  "length xs = Suc n \<Longrightarrow> take n xs @ drop (Suc n) xs = butlast xs \<and> xs ! n = last xs"
  by (cases xs rule: rev_cases) (auto simp: nth_append)

lemma space_short:
  "length (info_cache_lru s) < INFO_CACHE_LRU_SIZE \<Longrightarrow> ensure_lru_cache_space s = s"
  by (simp add: ensure_lru_cache_space_def Let_def INFO_CACHE_LRU_SIZE_def)

lemma space_full:
  assumes "length (info_cache_lru s) = INFO_CACHE_LRU_SIZE"
  shows "ensure_lru_cache_space s =
           g_object_unref (last (info_cache_lru s))
             (s\<lparr> info_cache_lru := butlast (info_cache_lru s) \<rparr>)"
proof -
  from assms have l: "length (info_cache_lru s) = Suc 31"
    by (simp add: INFO_CACHE_LRU_SIZE_def)
  from evict_index[OF l] l show ?thesis
    by (simp add: ensure_lru_cache_space_def Let_def INFO_CACHE_LRU_SIZE_def)
qed

lemma lru_shrinks_butlast [simp]: "lru_shrinks xs (butlast xs)"
  by (auto simp: lru_shrinks_def distinct_butlast dest: in_set_butlastD)

lemma space_lru:
  assumes "lru_bounded s"
  shows "lru_shrinks (info_cache_lru s) (info_cache_lru (ensure_lru_cache_space s)) \<and>
         length (info_cache_lru (ensure_lru_cache_space s)) < INFO_CACHE_LRU_SIZE"
proof (cases "length (info_cache_lru s) < INFO_CACHE_LRU_SIZE")
  case True
  then show ?thesis by (simp add: space_short)
next
  case False
  with assms have full: "length (info_cache_lru s) = INFO_CACHE_LRU_SIZE"
    by (simp add: lru_bounded_def)
  let ?s1 = "s\<lparr> info_cache_lru := butlast (info_cache_lru s) \<rparr>"
  have "lru_shrinks (butlast (info_cache_lru s))
      (info_cache_lru (g_object_unref (last (info_cache_lru s)) ?s1))"
    using lru_unref[of ?s1 "last (info_cache_lru s)"] by simp
  from lru_shrinks_trans[OF lru_shrinks_butlast this]
  have sh: "lru_shrinks (info_cache_lru s) (info_cache_lru (ensure_lru_cache_space s))"
    by (simp add: space_full[OF full])
  have "length (info_cache_lru (g_object_unref (last (info_cache_lru s)) ?s1))
      \<le> length (butlast (info_cache_lru s))"
    using lru_unref[of ?s1 "last (info_cache_lru s)"] by (simp add: lru_shrinks_def)
  with full have "length (info_cache_lru (ensure_lru_cache_space s)) < INFO_CACHE_LRU_SIZE"
    by (simp add: space_full[OF full] INFO_CACHE_LRU_SIZE_def)
  with sh show ?thesis by simp
qed

lemma add_to_lru_cache_new:
  assumes "lru_bounded s" "p \<notin> set (info_cache_lru s)"
  shows "\<exists>s'. add_to_lru_cache p s = Inr s' \<and> lru_bounded s' \<and>
           info_cache_lru s' = p # info_cache_lru (ensure_lru_cache_space s)"
proof -
  from space_lru[OF assms(1)] assms
  have "p \<notin> set (info_cache_lru (ensure_lru_cache_space s))"
    "distinct (info_cache_lru (ensure_lru_cache_space s))"
    "length (info_cache_lru (ensure_lru_cache_space s)) < INFO_CACHE_LRU_SIZE"
    by (auto simp: lru_shrinks_def lru_bounded_def)
  with assms(2) show ?thesis
    by (simp add: add_to_lru_cache_def Let_def lru_bounded_def)
qed

lemma ensure_in_lru_cache_bounded:
  assumes "lru_bounded s"
  shows "\<exists>s'. ensure_in_lru_cache p s = Inr s' \<and> lru_bounded s' \<and> hd (info_cache_lru s') = p"
proof (cases "p \<in> set (info_cache_lru s)")
  case True
  then have "0 < length (info_cache_lru s)" by (rule length_pos_if_in_set)
  with True assms show ?thesis
    by (auto simp: ensure_in_lru_cache_def lru_bounded_def length_remove1)
next
  case False
  with add_to_lru_cache_new[OF assms False] show ?thesis
    by (auto simp: ensure_in_lru_cache_def)
qed

lemma heap_g_object_ref_other:
  "q \<noteq> p \<Longrightarrow> icon_infos (g_object_ref p s) q = icon_infos s q"
  by (simp add: g_object_ref_def split: option.splits)

lemma park_evicts_tail:
  assumes "lru_bounded s" "p \<notin> set (info_cache_lru s)"
    "length (info_cache_lru s) = INFO_CACHE_LRU_SIZE"
    "icon_infos s (last (info_cache_lru s)) = Some i"
  shows "\<exists>s'. ensure_in_lru_cache p s = Inr s' \<and>
           last (info_cache_lru s) \<notin> set (info_cache_lru s') \<and>
           set (info_cache_lru s') \<subseteq> insert p (set (butlast (info_cache_lru s))) \<and>
           (1 < ref_count i \<longrightarrow>
              info_cache_lru s' = p # butlast (info_cache_lru s) \<and>
              icon_infos s' (last (info_cache_lru s)) =
                Some (i\<lparr> ref_count := ref_count i - 1 \<rparr>)) \<and>
           (ref_count i = 1 \<longrightarrow> icon_infos s' (last (info_cache_lru s)) = None)"
proof -
  let ?e = "last (info_cache_lru s)"
  let ?s1 = "s\<lparr> info_cache_lru := butlast (info_cache_lru s) \<rparr>"
  let ?s2 = "g_object_unref ?e ?s1"
  from assms(3) have ne: "info_cache_lru s \<noteq> []" by (auto simp: INFO_CACHE_LRU_SIZE_def)
  then have ein: "?e \<in> set (info_cache_lru s)" by simp
  with assms(2) have pe: "?e \<noteq> p" by auto
  from assms(1) ne have enb: "?e \<notin> set (butlast (info_cache_lru s))"
    by (metis append_butlast_last_id distinct_append lru_bounded_def disjoint_iff list.set_intros(1) distinct.simps(2) not_distinct_conv_prefix)
  have sp: "ensure_lru_cache_space s = ?s2" by (rule space_full[OF assms(3)])
  from add_to_lru_cache_new[OF assms(1,2)] obtain s' where
    s': "add_to_lru_cache p s = Inr s'" "info_cache_lru s' = p # info_cache_lru ?s2"
    by (auto simp: sp)
  have s'eq: "s' = (g_object_ref p ?s2)\<lparr> info_cache_lru := p # info_cache_lru (g_object_ref p ?s2) \<rparr>"
    using s'(1) assms(2) by (simp add: add_to_lru_cache_def Let_def sp)
  have sub: "set (info_cache_lru ?s2) \<subseteq> set (butlast (info_cache_lru s))"
    using lru_unref[of ?s1 ?e] by (simp add: lru_shrinks_def)
  have heap: "icon_infos s' ?e = icon_infos ?s2 ?e"
    using pe by (simp add: s'eq heap_g_object_ref_other)
  have c1: "1 < ref_count i \<longrightarrow> info_cache_lru s' = p # butlast (info_cache_lru s) \<and>
              icon_infos s' ?e = Some (i\<lparr> ref_count := ref_count i - 1 \<rparr>)"
    using assms(4) heap s'(2) by (simp add: g_object_unref_def)
  have c2: "ref_count i = 1 \<longrightarrow> icon_infos s' ?e = None"
    using assms(4) heap by (simp add: g_object_unref_def gtk_icon_info_finalize_def Let_def)
  from s' sub enb pe c1 c2 assms(2) show ?thesis
    by (auto simp: ensure_in_lru_cache_def)
qed

lemma lru_load_themes [simp]: "info_cache_lru (load_themes fs now s) = info_cache_lru s"
  using cache_part_load_themes[of fs now s] by (simp add: cache_part_def)

lemma lru_ensure_valid_themes:
  "lru_shrinks (info_cache_lru s) (info_cache_lru (snd (ensure_valid_themes fs now (g, s))))"
proof -
  have 1: "info_cache_lru (queue_theme_changed s) = info_cache_lru s" for s
    by (simp add: queue_theme_changed_def)
  have 2: "info_cache_lru (snd (rescan_themes fs now s)) = info_cache_lru s" for s
    by (simp add: rescan_themes_def Let_def)
  have 3: "info_cache_lru (blow_themes s) = info_cache_lru s" for s
    by (simp add: blow_themes_def)
  have 4: "lru_shrinks (info_cache_lru s)
      (info_cache_lru (g_hash_table_remove_all (snd (rescan_themes fs now (s\<lparr> loading_themes := True \<rparr>)))))"
    using lru_remove_all[of "snd (rescan_themes fs now (s\<lparr> loading_themes := True \<rparr>))"]
    by (simp add: 2)
  show ?thesis
    using 4 by (simp add: ensure_valid_themes_def Let_def 1 2 3)
qed

lemma lru_hash_insert:
  "lru_shrinks (info_cache_lru s) (info_cache_lru (g_hash_table_insert p k s))"
  using lru_uncached[of "s\<lparr> info_cache := map (\<lambda>q. if q = old then p else q) (info_cache s) \<rparr>" old for old]
  by (simp add: g_hash_table_insert_def split: option.splits)

lemma choose_icon_hit:
  assumes "g_hash_table_lookup (snd (ensure_valid_themes fs now (g, s)))
             \<lparr> icon_names = names, ksize = sz, kscale = sc, kflags = flags \<rparr> = Some p"
  shows "choose_icon fs now (g, s) names sz sc flags =
           Inr (Some p, fst (ensure_valid_themes fs now (g, s)),
                remove_from_lru_cache p (g_object_ref p (snd (ensure_valid_themes fs now (g, s)))))"
  using assms by (simp add: choose_icon_def Let_def)

lemma choose_icon_lru:
  assumes "choose_icon fs now (g, s) names sz sc flags = Inr (r, g', s')"
  shows "lru_shrinks (info_cache_lru s) (info_cache_lru s')"
proof -
  let ?s1 = "snd (ensure_valid_themes fs now (g, s))"
  let ?k = "\<lparr> icon_names = names, ksize = sz, kscale = sc, kflags = flags \<rparr>"
  note ev = lru_ensure_valid_themes[of s fs now g]
  show ?thesis
  proof (cases "g_hash_table_lookup ?s1 ?k")
    case (Some p)
    from choose_icon_hit[OF Some] assms
    have s': "s' = remove_from_lru_cache p (g_object_ref p ?s1)" by simp
    have "lru_shrinks (info_cache_lru ?s1) (info_cache_lru s')"
      using lru_remove_from[of "g_object_ref p ?s1" p] by (simp add: s')
    with ev show ?thesis by (rule lru_shrinks_trans)
  next
    case None
    have "lru_shrinks (info_cache_lru ?s1) (info_cache_lru s')"
      using assms None
        lru_hash_insert[of "?s1\<lparr> icon_infos := h, next_info := n \<rparr>" "next_info ?s1" ?k for h n]
      by (auto simp: choose_icon_def Let_def split: sum.splits option.splits prod.splits if_splits)
    with ev show ?thesis by (rule lru_shrinks_trans)
  qed
qed

lemma proxy_pixbuf_destroy_lru:
  assumes "lru_bounded s" "proxy_pixbuf_destroy p s = Inr s'"
  shows "lru_bounded s'"
proof -
  from assms(2) obtain i where i: "icon_infos s p = Some i" "proxy_pixbuf i"
    by (auto simp: proxy_pixbuf_destroy_def split: option.splits if_splits)
  let ?s1 = "s\<lparr> icon_infos := (icon_infos s)(p \<mapsto> i\<lparr> proxy_pixbuf := False \<rparr>) \<rparr>"
  have b1: "lru_bounded ?s1" using assms(1) by (simp add: lru_bounded_def)
  from ensure_in_lru_cache_bounded[OF b1, of p] obtain s2 where
    s2: "ensure_in_lru_cache p ?s1 = Inr s2" "lru_bounded s2" by auto
  have "\<exists>s3. lru_bounded s3 \<and> s' = g_object_unref p s3"
    using assms(2) i s2 b1
    by (auto simp: proxy_pixbuf_destroy_def Let_def split: if_splits)
  then obtain s3 where s3: "lru_bounded s3" "s' = g_object_unref p s3" by auto
  from lru_shrinks_bounded[OF s3(1) lru_unref[of s3 p]] s3(2) show ?thesis by simp
qed

lemma proxy_pixbuf_destroy_returns:
  assumes "lru_bounded s" "icon_infos s p = Some i" "proxy_pixbuf i"
  shows "\<exists>s'. proxy_pixbuf_destroy p s = Inr s'"
proof -
  let ?s1 = "s\<lparr> icon_infos := (icon_infos s)(p \<mapsto> i\<lparr> proxy_pixbuf := False \<rparr>) \<rparr>"
  have b1: "lru_bounded ?s1" using assms(1) by (simp add: lru_bounded_def)
  from ensure_in_lru_cache_bounded[OF b1, of p] obtain s2 where
    "ensure_in_lru_cache p ?s1 = Inr s2" by blast
  with assms(2,3) show ?thesis
    by (simp add: proxy_pixbuf_destroy_def Let_def)
qed

text \<open>
  C5. In a state whose LRU side list holds at most 32 entries, none twice:
  \<^item> parking an icon info (\<^verbatim>\<open>ensure_in_lru_cache\<close>) succeeds and leaves the list within
    the bound, without duplicates, the parked entry at its head;
  \<^item> parking an entry that is already in the list only moves it to the head;
  \<^item> parking a new entry into a list with room prepends it, with a new reference;
  \<^item> parking a new entry into a full list removes the tail entry from the list and drops
    the reference the list held on it: its count goes down by one, or, when that was its
    last reference, the object is finalized and freed;
  \<^item> \<^verbatim>\<open>remove_from_lru_cache\<close> keeps the bound and leaves the entry out of the list;
  \<^item> \<^verbatim>\<open>proxy_pixbuf_destroy\<close> and \<^verbatim>\<open>choose_icon\<close> keep the bound whenever they return;
  \<^item> a request whose key is in the primary cache is answered by \<^verbatim>\<open>choose_icon\<close>: it
    returns the cached entry and leaves it out of the list, within the bound;
  \<^item> \<^verbatim>\<open>proxy_pixbuf_destroy\<close> returns on every icon info that has a proxy pixbuf.
\<close>

theorem lru_side_list_bounded:
  assumes "lru_bounded s"
  shows "(\<exists>s'. ensure_in_lru_cache p s = Inr s' \<and> lru_bounded s' \<and> hd (info_cache_lru s') = p) \<and>
         (p \<in> set (info_cache_lru s) \<longrightarrow>
            ensure_in_lru_cache p s =
              Inr (s\<lparr> info_cache_lru := p # remove1 p (info_cache_lru s) \<rparr>)) \<and>
         (p \<notin> set (info_cache_lru s) \<and> length (info_cache_lru s) < INFO_CACHE_LRU_SIZE \<longrightarrow>
            ensure_in_lru_cache p s =
              Inr ((g_object_ref p s)\<lparr> info_cache_lru := p # info_cache_lru s \<rparr>)) \<and>
         (p \<notin> set (info_cache_lru s) \<and> length (info_cache_lru s) = INFO_CACHE_LRU_SIZE \<and>
          icon_infos s (last (info_cache_lru s)) = Some i \<longrightarrow>
            (\<exists>s'. ensure_in_lru_cache p s = Inr s' \<and>
               last (info_cache_lru s) \<notin> set (info_cache_lru s') \<and>
               set (info_cache_lru s') \<subseteq> insert p (set (butlast (info_cache_lru s))) \<and>
               (1 < ref_count i \<longrightarrow>
                  info_cache_lru s' = p # butlast (info_cache_lru s) \<and>
                  icon_infos s' (last (info_cache_lru s)) =
                    Some (i\<lparr> ref_count := ref_count i - 1 \<rparr>)) \<and>
               (ref_count i = 1 \<longrightarrow> icon_infos s' (last (info_cache_lru s)) = None))) \<and>
         lru_bounded (remove_from_lru_cache p s) \<and>
         p \<notin> set (info_cache_lru (remove_from_lru_cache p s)) \<and>
         (\<forall>s'. proxy_pixbuf_destroy p s = Inr s' \<longrightarrow> lru_bounded s') \<and>
         (\<forall>r g' s'. choose_icon fs now (g, s) names sz sc flags = Inr (r, g', s') \<longrightarrow>
            lru_bounded s' \<and>
            (g_hash_table_lookup (snd (ensure_valid_themes fs now (g, s)))
               \<lparr> icon_names = names, ksize = sz, kscale = sc, kflags = flags \<rparr> = Some p \<longrightarrow>
             r = Some p \<and> p \<notin> set (info_cache_lru s'))) \<and>
         (g_hash_table_lookup (snd (ensure_valid_themes fs now (g, s)))
            \<lparr> icon_names = names, ksize = sz, kscale = sc, kflags = flags \<rparr> = Some p \<longrightarrow>
          (\<exists>g' s'. choose_icon fs now (g, s) names sz sc flags = Inr (Some p, g', s') \<and>
                    lru_bounded s' \<and> p \<notin> set (info_cache_lru s'))) \<and>
         (\<forall>j. icon_infos s p = Some j \<and> proxy_pixbuf j \<longrightarrow>
            (\<exists>s'. proxy_pixbuf_destroy p s = Inr s' \<and> lru_bounded s'))"
proof (intro conjI impI allI)
  show "\<exists>s'. ensure_in_lru_cache p s = Inr s' \<and> lru_bounded s' \<and> hd (info_cache_lru s') = p"
    by (rule ensure_in_lru_cache_bounded[OF assms])
next
  assume "p \<in> set (info_cache_lru s)"
  then show "ensure_in_lru_cache p s =
      Inr (s\<lparr> info_cache_lru := p # remove1 p (info_cache_lru s) \<rparr>)"
    by (simp add: ensure_in_lru_cache_def)
next
  assume "p \<notin> set (info_cache_lru s) \<and> length (info_cache_lru s) < INFO_CACHE_LRU_SIZE"
  then show "ensure_in_lru_cache p s =
      Inr ((g_object_ref p s)\<lparr> info_cache_lru := p # info_cache_lru s \<rparr>)"
    by (simp add: ensure_in_lru_cache_def add_to_lru_cache_def space_short Let_def)
next
  assume "p \<notin> set (info_cache_lru s) \<and> length (info_cache_lru s) = INFO_CACHE_LRU_SIZE \<and>
          icon_infos s (last (info_cache_lru s)) = Some i"
  with park_evicts_tail[OF assms, of p i]
  show "\<exists>s'. ensure_in_lru_cache p s = Inr s' \<and>
               last (info_cache_lru s) \<notin> set (info_cache_lru s') \<and>
               set (info_cache_lru s') \<subseteq> insert p (set (butlast (info_cache_lru s))) \<and>
               (1 < ref_count i \<longrightarrow>
                  info_cache_lru s' = p # butlast (info_cache_lru s) \<and>
                  icon_infos s' (last (info_cache_lru s)) =
                    Some (i\<lparr> ref_count := ref_count i - 1 \<rparr>)) \<and>
               (ref_count i = 1 \<longrightarrow> icon_infos s' (last (info_cache_lru s)) = None)"
    by blast
next
  show "lru_bounded (remove_from_lru_cache p s)"
    by (rule lru_shrinks_bounded[OF assms lru_remove_from])
next
  show "p \<notin> set (info_cache_lru (remove_from_lru_cache p s))"
    using assms by (simp add: remove_from_lru_cache_absent lru_bounded_def)
next
  fix s' assume "proxy_pixbuf_destroy p s = Inr s'"
  then show "lru_bounded s'" by (rule proxy_pixbuf_destroy_lru[OF assms])
next
  fix r g' s' assume c: "choose_icon fs now (g, s) names sz sc flags = Inr (r, g', s')"
  show "lru_bounded s'" by (rule lru_shrinks_bounded[OF assms choose_icon_lru[OF c]])
  assume h: "g_hash_table_lookup (snd (ensure_valid_themes fs now (g, s)))
               \<lparr> icon_names = names, ksize = sz, kscale = sc, kflags = flags \<rparr> = Some p"
  let ?s1 = "snd (ensure_valid_themes fs now (g, s))"
  from choose_icon_hit[OF h] c
  have r: "r = Some p" and s': "s' = remove_from_lru_cache p (g_object_ref p ?s1)" by simp_all
  show "r = Some p" by (rule r)
  from lru_ensure_valid_themes[of s fs now g] assms
  have "distinct (info_cache_lru (g_object_ref p ?s1))"
    by (simp add: lru_shrinks_def lru_bounded_def)
  then show "p \<notin> set (info_cache_lru s')"
    unfolding s' by (rule remove_from_lru_cache_absent)
next
  assume h: "g_hash_table_lookup (snd (ensure_valid_themes fs now (g, s)))
               \<lparr> icon_names = names, ksize = sz, kscale = sc, kflags = flags \<rparr> = Some p"
  let ?s1 = "snd (ensure_valid_themes fs now (g, s))"
  let ?s' = "remove_from_lru_cache p (g_object_ref p ?s1)"
  note c = choose_icon_hit[OF h]
  have b: "lru_bounded ?s'" by (rule lru_shrinks_bounded[OF assms choose_icon_lru[OF c]])
  from lru_ensure_valid_themes[of s fs now g] assms
  have "distinct (info_cache_lru (g_object_ref p ?s1))"
    by (simp add: lru_shrinks_def lru_bounded_def)
  then have "p \<notin> set (info_cache_lru ?s')" by (rule remove_from_lru_cache_absent)
  with c b show "\<exists>g' s'. choose_icon fs now (g, s) names sz sc flags = Inr (Some p, g', s') \<and>
                    lru_bounded s' \<and> p \<notin> set (info_cache_lru s')"
    by blast
next
  fix j assume "icon_infos s p = Some j \<and> proxy_pixbuf j"
  then obtain s' where d: "proxy_pixbuf_destroy p s = Inr s'"
    using proxy_pixbuf_destroy_returns[OF assms, of p j] by blast
  from proxy_pixbuf_destroy_lru[OF assms d] d
  show "\<exists>s'. proxy_pixbuf_destroy p s = Inr s' \<and> lru_bounded s'" by blast
qed


lemmas cache_simps =
  choose_icon_def ensure_valid_themes_def ensure_builtin_cache_def g_hash_table_lookup_def
  key_matches_def icon_info_key_equal_def remove_from_lru_cache_def g_object_ref_def
  g_object_unref_def gtk_icon_info_finalize_def g_hash_table_insert_def
  choose_icon_search_def choose_icon_allow_svg_def theme_lookup_icon_def
  proxy_pixbuf_destroy_def ensure_in_lru_cache_def add_to_lru_cache_def
  ensure_lru_cache_space_def INFO_CACHE_LRU_SIZE_def lru_bounded_def
  example_cached_def example_handed_out_def example_parked_def example_state_def example_foo_def
  example_simps icon_info_new_def string_from_suffix_def g_build_filename_def
  g_str_has_suffix_def GTK_ICON_LOOKUP_NO_SVG_def GTK_ICON_LOOKUP_FORCE_SVG_def
  GTK_ICON_LOOKUP_USE_BUILTIN_def GTK_ICON_LOOKUP_FORCE_SIZE_def DEFAULT_THEME_NAME_def Let_def

theorem lru_side_list_bounded_witness:
  "lru_bounded example_parked \<and> length (info_cache_lru example_parked) = 32 \<and>
   (\<exists>s'. ensure_in_lru_cache 40 example_parked = Inr s' \<and> lru_bounded s' \<and>
          hd (info_cache_lru s') = 40) \<and>
   (\<exists>s'. ensure_in_lru_cache 40 example_parked = Inr s' \<and>
          32 \<notin> set (info_cache_lru s') \<and> icon_infos s' 32 = None) \<and>
   (\<exists>s'. ensure_in_lru_cache 40 example_parked = Inr s' \<and>
          info_cache_lru s' = [40, 1, 2, 3, 4, 5, 6, 7, 8, 9, 10, 11, 12, 13, 14, 15, 16, 17, 18,
                               19, 20, 21, 22, 23, 24, 25, 26, 27, 28, 29, 30, 31] \<and>
          map_option ref_count (icon_infos s' 40) = Some 2) \<and>
   ensure_in_lru_cache 5 example_parked =
     Inr (example_parked\<lparr> info_cache_lru := 5 # remove1 5 (info_cache_lru example_parked) \<rparr>) \<and>
   5 \<notin> set (info_cache_lru (remove_from_lru_cache 5 example_parked)) \<and>
   lru_bounded example_cached \<and> info_cache_lru example_cached = [7] \<and>
   g_hash_table_lookup example_cached (example_key [''edit-cut'']) = Some 7 \<and>
   (\<exists>g' s'. choose_icon example_fs 3 (example_globals, example_cached) [''edit-cut''] 16 1 0
               = Inr (Some 7, g', s') \<and>
            lru_bounded s' \<and> 7 \<notin> set (info_cache_lru s') \<and>
            info_cache s' = [7] \<and> info_cache_lru s' = [] \<and>
            map_option ref_count (icon_infos s' 7) = Some 1) \<and>
   (\<exists>g' s'. choose_icon example_fs 3 (example_globals, example_cached) [''edit-cut''] 24 1 0
               = Inr (Some 8, g', s') \<and>
            lru_bounded s' \<and> info_cache s' = [7, 8] \<and> info_cache_lru s' = [7] \<and>
            map_option filename (icon_infos s' 8) = Some (Some ''Foo/16x16/edit-cut.png'')) \<and>
   (\<exists>s'. proxy_pixbuf_destroy 7 example_handed_out = Inr s' \<and> lru_bounded s' \<and>
          info_cache_lru s' = [7] \<and> map_option ref_count (icon_infos s' 7) = Some 1)"
proof -
  have b: "lru_bounded example_parked"
    by (simp add: lru_bounded_def example_parked_def INFO_CACHE_LRU_SIZE_def)
  have l: "length (info_cache_lru example_parked) = 32"
    by (simp add: example_parked_def)
  have e: "last (info_cache_lru example_parked) = 32"
    by (simp add: example_parked_def)
  have full: "40 \<notin> set (info_cache_lru example_parked) \<and>
      length (info_cache_lru example_parked) = INFO_CACHE_LRU_SIZE \<and>
      icon_infos example_parked (last (info_cache_lru example_parked))
        = Some (icon_info_new ICON_THEME_DIR_FIXED 16 1)"
    by (simp add: example_parked_def INFO_CACHE_LRU_SIZE_def)
  have one: "ref_count (icon_info_new ICON_THEME_DIR_FIXED 16 1) = 1"
    by (simp add: icon_info_new_def)
  have five: "5 \<in> set (info_cache_lru example_parked)"
    by (simp add: example_parked_def)
  note t40 = lru_side_list_bounded[OF b, where p = 40
      and i = "icon_info_new ICON_THEME_DIR_FIXED 16 1" and fs = example_fs and now = 0
      and g = example_globals and names = "[]" and sz = 0 and sc = 0 and flags = 0]
  note t5 = lru_side_list_bounded[OF b, where p = 5
      and i = "icon_info_new ICON_THEME_DIR_FIXED 16 1" and fs = example_fs and now = 0
      and g = example_globals and names = "[]" and sz = 0 and sc = 0 and flags = 0]
  from t40 have A: "\<exists>s'. ensure_in_lru_cache 40 example_parked = Inr s' \<and> lru_bounded s' \<and>
          hd (info_cache_lru s') = 40"
    by (rule conjunct1)
  from t40 full one e have B: "\<exists>s'. ensure_in_lru_cache 40 example_parked = Inr s' \<and>
          32 \<notin> set (info_cache_lru s') \<and> icon_infos s' 32 = None"
    by auto
  have B': "\<exists>s'. ensure_in_lru_cache 40 example_parked = Inr s' \<and>
          info_cache_lru s' = [40, 1, 2, 3, 4, 5, 6, 7, 8, 9, 10, 11, 12, 13, 14, 15, 16, 17, 18,
                               19, 20, 21, 22, 23, 24, 25, 26, 27, 28, 29, 30, 31] \<and>
          map_option ref_count (icon_infos s' 40) = Some 2"
    by (simp add: cache_simps)
  from t5 five have C: "ensure_in_lru_cache 5 example_parked =
     Inr (example_parked\<lparr> info_cache_lru := 5 # remove1 5 (info_cache_lru example_parked) \<rparr>)"
    by blast
  from t5 have D: "5 \<notin> set (info_cache_lru (remove_from_lru_cache 5 example_parked))"
    by blast
  have bc: "lru_bounded example_cached" "info_cache_lru example_cached = [7]"
    "g_hash_table_lookup example_cached (example_key [''edit-cut'']) = Some 7"
    by (simp_all add: cache_simps)
  note th = lru_side_list_bounded[OF bc(1), where p = 7
      and i = "icon_info_new ICON_THEME_DIR_FIXED 16 1" and fs = example_fs and now = 3
      and g = example_globals and names = "[''edit-cut'']" and sz = 16 and sc = 1 and flags = 0]
  have hit: "g_hash_table_lookup
               (snd (ensure_valid_themes example_fs 3 (example_globals, example_cached)))
               \<lparr> icon_names = [''edit-cut''], ksize = 16, kscale = 1, kflags = 0 \<rparr> = Some 7"
    by (simp add: cache_simps)
  from th hit obtain g1 s1 where
    h1: "choose_icon example_fs 3 (example_globals, example_cached) [''edit-cut''] 16 1 0
           = Inr (Some 7, g1, s1)" "lru_bounded s1" "7 \<notin> set (info_cache_lru s1)"
    by blast
  have "\<exists>g' s'. choose_icon example_fs 3 (example_globals, example_cached) [''edit-cut''] 16 1 0
            = Inr (Some 7, g', s') \<and>
          info_cache s' = [7] \<and> info_cache_lru s' = [] \<and>
          map_option ref_count (icon_infos s' 7) = Some 1"
    by (simp add: cache_simps)
  with h1 have E: "\<exists>g' s'.
      choose_icon example_fs 3 (example_globals, example_cached) [''edit-cut''] 16 1 0
               = Inr (Some 7, g', s') \<and>
            lru_bounded s' \<and> 7 \<notin> set (info_cache_lru s') \<and>
            info_cache s' = [7] \<and> info_cache_lru s' = [] \<and>
            map_option ref_count (icon_infos s' 7) = Some 1"
    by auto
  note tm = lru_side_list_bounded[OF bc(1), where p = 7
      and i = "icon_info_new ICON_THEME_DIR_FIXED 16 1" and fs = example_fs and now = 3
      and g = example_globals and names = "[''edit-cut'']" and sz = 24 and sc = 1 and flags = 0]
  have "\<exists>g' s'. choose_icon example_fs 3 (example_globals, example_cached) [''edit-cut''] 24 1 0
            = Inr (Some 8, g', s') \<and>
          info_cache s' = [7, 8] \<and> info_cache_lru s' = [7] \<and>
          map_option filename (icon_infos s' 8) = Some (Some ''Foo/16x16/edit-cut.png'')"
    by (simp add: cache_simps)
  then obtain g2 s2 where
    m: "choose_icon example_fs 3 (example_globals, example_cached) [''edit-cut''] 24 1 0
            = Inr (Some 8, g2, s2)"
      "info_cache s2 = [7, 8]" "info_cache_lru s2 = [7]"
      "map_option filename (icon_infos s2 8) = Some (Some ''Foo/16x16/edit-cut.png'')"
    by blast
  from tm m(1) have "lru_bounded s2" by blast
  with m have F: "\<exists>g' s'.
      choose_icon example_fs 3 (example_globals, example_cached) [''edit-cut''] 24 1 0
               = Inr (Some 8, g', s') \<and>
            lru_bounded s' \<and> info_cache s' = [7, 8] \<and> info_cache_lru s' = [7] \<and>
            map_option filename (icon_infos s' 8) = Some (Some ''Foo/16x16/edit-cut.png'')"
    by blast
  have bh: "lru_bounded example_handed_out"
    by (simp add: cache_simps)
  have ph: "icon_infos example_handed_out 7 =
              Some ((icon_info_new ICON_THEME_DIR_FIXED 16 1)
                      \<lparr> key := example_key [''edit-cut''], in_cache := True,
                        proxy_pixbuf := True \<rparr>) \<and>
            proxy_pixbuf ((icon_info_new ICON_THEME_DIR_FIXED 16 1)
                      \<lparr> key := example_key [''edit-cut''], in_cache := True,
                        proxy_pixbuf := True \<rparr>)"
    by (simp add: example_handed_out_def)
  note td = lru_side_list_bounded[OF bh, where p = 7
      and i = "icon_info_new ICON_THEME_DIR_FIXED 16 1" and fs = example_fs and now = 3
      and g = example_globals and names = "[''edit-cut'']" and sz = 16 and sc = 1 and flags = 0]
  from td ph obtain s3 where
    d: "proxy_pixbuf_destroy 7 example_handed_out = Inr s3" "lru_bounded s3"
    by blast
  have "\<exists>s'. proxy_pixbuf_destroy 7 example_handed_out = Inr s' \<and>
          info_cache_lru s' = [7] \<and> map_option ref_count (icon_infos s' 7) = Some 1"
    by (simp add: cache_simps)
  with d have G: "\<exists>s'. proxy_pixbuf_destroy 7 example_handed_out = Inr s' \<and> lru_bounded s' \<and>
          info_cache_lru s' = [7] \<and> map_option ref_count (icon_infos s' 7) = Some 1"
    by auto
  from b l A B B' C D bc E F G show ?thesis by blast
qed


end
